theory Spec2Isabelle
  imports Main "HOL-Library.Word"
begin

chapter \<open>Flag values and command dispatch of the Go package \<open>cli\<close>\<close>

text \<open>
  A shallow embedding of the collection value cell \<open>SliceBase\<close> and of the methods of
  \<open>Command\<close> that look flags up, check required flags, inherit persistent flags, resolve
  the sub-command and run the hooks. Mutation is explicit: a method that changes its
  receiver returns the receiver afterwards. The definitions come first, the properties
  follow.
\<close>

section \<open>Errors and strings\<close>

text \<open>
  Go errors are values of \<open>error\<close>. A run-time panic (a nil pointer dereference, a
  method call on a nil interface) is not an error return in Go; it is kept apart as
  the constructor \<open>Panic\<close>, so that a panicking path of the source is a branch of the
  model. \<open>MultiError\<close> is what \<open>newMultiError\<close> builds from several errors.
\<close>

datatype error = Err string | MultiError "error list" | RequiredFlagsErr "string list" | Panic string

text \<open>\<open>strings.HasPrefix\<close>.\<close>

definition HasPrefix :: "string \<Rightarrow> string \<Rightarrow> bool" where
  "HasPrefix s pfx = (take (length pfx) s = pfx)"

text \<open>
  \<open>strings.Replace(s, old, "", 1)\<close>: the leftmost occurrence of \<open>old\<close> is removed; an
  empty \<open>old\<close> matches at the start and leaves \<open>s\<close> as it is.
\<close>

fun removeFirst :: "string \<Rightarrow> string \<Rightarrow> string" where
  "removeFirst old [] = []"
| "removeFirst old (c # cs) =
     (if take (length old) (c # cs) = old then drop (length old) (c # cs)
      else c # removeFirst old cs)"

text \<open>
  \<open>strings.TrimSpace\<close> on the ASCII white space characters (space, tab, line feed,
  vertical tab, form feed, carriage return). Strings are byte lists here, so the
  multi-byte Unicode spaces that Go also trims are not recognised.
\<close>

definition isSpace :: "char \<Rightarrow> bool" where
  "isSpace c = (c \<in> set [CHR '' '', CHR 0x09, CHR 0x0A, CHR 0x0B, CHR 0x0C, CHR 0x0D])"

definition TrimSpace :: "string \<Rightarrow> string" where
  "TrimSpace s = rev (dropWhile isSpace (rev (dropWhile isSpace s)))"

text \<open>
  \<open>strings.Split(s, sep)\<close> for a non-empty separator: \<open>cur\<close> is the token read so far.
  For an empty separator Go splits after every character.
\<close>

function splitAcc :: "string \<Rightarrow> string \<Rightarrow> string \<Rightarrow> string list" where
  "splitAcc sep cur [] = [cur]"
| "splitAcc sep cur (c # cs) =
     (if sep \<noteq> [] \<and> take (length sep) (c # cs) = sep
      then cur # splitAcc sep [] (drop (length sep) (c # cs))
      else splitAcc sep (cur @ [c]) cs)"
  by pat_completeness auto
termination
  by (relation "measure (\<lambda>(sep, cur, s). length s)") (auto simp: neq_Nil_conv)

definition Split :: "string \<Rightarrow> string \<Rightarrow> string list" where
  "Split s sep = (if sep = [] then map (\<lambda>c. [c]) s else splitAcc sep [] s)"

text \<open>\<open>strings.Join\<close>.\<close>

fun Join :: "string list \<Rightarrow> string \<Rightarrow> string" where
  "Join [] sep = []"
| "Join [x] sep = x"
| "Join (x # y # ys) sep = x @ sep @ Join (y # ys) sep"

section \<open>Collection value cell: \<open>SliceBase\<close>\<close>

text \<open>
  The process-wide settings the cell reads. \<open>slPfx\<close> is the reserved prefix of a
  serialized collection; its declaration is not among the sources, so it is a field
  here and every result holds for any prefix. \<open>defaultSliceFlagSeparator\<close> and
  \<open>disableSliceFlagSeparator\<close> are the two package variables that
  \<open>Command.setupDefaults\<close> assigns.
\<close>

record globals =
  slPfx :: string
  defaultSliceFlagSeparator :: string
  disableSliceFlagSeparator :: bool

text \<open>
  Modelled from the spec: \<open>flagSplitMultiValues\<close> is called by \<open>SliceBase.Set\<close> and
  exercised by \<open>TestCustomizedSliceFlagSeparator\<close> and \<open>TestFlagSplitMultiValues_Disabled\<close>,
  but its body is not among the sources. The spec: ``split raw on the active separator
  (or treat as a single token if splitting is disabled)''.
\<close>

definition flagSplitMultiValues :: "globals \<Rightarrow> string \<Rightarrow> string list" where
  "flagSplitMultiValues g val =
     (if disableSliceFlagSeparator g then [val] else Split val (defaultSliceFlagSeparator g))"

text \<open>
  A Go slice is \<open>nil\<close> or holds elements; \<open>json.Marshal\<close> tells the two apart.
  The field \<open>slice *[]T\<close> of the cell is a pointer, \<open>None\<close> when it is nil.
\<close>

datatype 'a slice = NilSlice | Slice "'a list"

fun elems :: "'a slice \<Rightarrow> 'a list" where
  "elems NilSlice = []"
| "elems (Slice xs) = xs"

text \<open>
  What \<open>json.Unmarshal(data, &i.slice)\<close> does to its target, by the kind of \<open>data\<close>:
  \<open>JNull\<close> (the literal \<open>null\<close>) sets the pointer to nil; \<open>JArray xs\<close> (a JSON array)
  resets the slice and stores the decoded elements, the zero value for an element that
  does not fit; \<open>JMismatch\<close> (another JSON value) stores nothing, but allocates a nil
  pointer; \<open>JInvalid\<close> (no JSON text) leaves the target as it was. The error
  \<open>json.Unmarshal\<close> returns is discarded by the source.
\<close>

datatype 'a json = JNull | JArray "'a list" | JMismatch | JInvalid

text \<open>
  The element type \<open>T\<close> and its value creator \<open>VC\<close>, with the standard library's JSON
  codec for \<open>[]T\<close>, as parameters: \<open>vcParse\<close> is \<open>i.value.Set\<close> followed by
  \<open>i.value.Get().(T)\<close> (either may fail with an error), \<open>vcToString\<close> is \<open>VC.ToString\<close>,
  \<open>fmtV\<close> prints one element under \<open>%v\<close>, \<open>kindIsString\<close> is
  \<open>reflect.TypeOf(t).Kind() == reflect.String\<close>, \<open>typeName\<close> is what \<open>%T\<close> prints for \<open>[]T\<close>,
  \<open>jsonMarshal\<close> encodes a non-nil slice (\<open>None\<close>: \<open>json.Marshal\<close> returned an error) and
  \<open>jsonUnmarshal\<close> classifies a text as above.
\<close>

record 'a elem_ops =
  vcParse :: "string \<Rightarrow> error + 'a"
  vcToString :: "'a \<Rightarrow> string"
  fmtV :: "'a \<Rightarrow> string"
  kindIsString :: bool
  typeName :: string
  jsonMarshal :: "'a list \<Rightarrow> string option"
  jsonUnmarshal :: "string \<Rightarrow> 'a json"

text \<open>
  The cell. \<open>hasValue\<close> tells whether the field \<open>value flag.Value\<close> is non-nil:
  \<open>Create\<close> fills it, \<open>NewSliceBase\<close> leaves it nil.
\<close>

record 'a SliceBase =
  slice :: "'a slice option"
  hasBeenSet :: bool
  hasValue :: bool

definition SliceBase_Create :: "'a list \<Rightarrow> 'a SliceBase" where
  "SliceBase_Create val = \<lparr>slice = Some (Slice ([] @ val)), hasBeenSet = False, hasValue = True\<rparr>"

text \<open>\<open>NewSliceBase(defaults...)\<close>: a call with no argument passes a nil slice.\<close>

definition NewSliceBase :: "'a list \<Rightarrow> 'a SliceBase" where
  "NewSliceBase defaults =
     \<lparr>slice = Some (if defaults = [] then NilSlice else Slice defaults),
      hasBeenSet = False, hasValue = False\<rparr>"

text \<open>
  The loop of \<open>SliceBase.Set\<close> over the tokens. It returns at the first token that does
  not parse, keeping the elements appended before it. Calling \<open>i.value.Set\<close> on a nil
  \<open>value\<close>, or appending through a nil \<open>slice\<close> pointer, panics.
\<close>

fun appendTokens ::
  "'a elem_ops \<Rightarrow> bool \<Rightarrow> string list \<Rightarrow> 'a slice option \<Rightarrow> error option \<times> 'a slice option" where
  "appendTokens ops hv [] sl = (None, sl)"
| "appendTokens ops hv (s # ss) sl =
     (if \<not> hv then (Some (Panic ''nil value''), sl)
      else case vcParse ops (TrimSpace s) of
        Inl e \<Rightarrow> (Some e, sl)
      | Inr t \<Rightarrow>
          (case sl of
             None \<Rightarrow> (Some (Panic ''nil slice''), sl)
           | Some x \<Rightarrow> appendTokens ops hv ss (Some (Slice (elems x @ [t])))))"

definition unmarshalInto :: "'a elem_ops \<Rightarrow> string \<Rightarrow> 'a slice option \<Rightarrow> 'a slice option" where
  "unmarshalInto ops data sl =
     (case jsonUnmarshal ops data of
        JNull \<Rightarrow> None
      | JArray xs \<Rightarrow> Some (Slice xs)
      | JMismatch \<Rightarrow> (case sl of None \<Rightarrow> Some NilSlice | Some x \<Rightarrow> Some x)
      | JInvalid \<Rightarrow> sl)"

text \<open>\<open>SliceBase.Set\<close>: the error returned (if any) and the cell afterwards.\<close>

definition SliceBase_Set ::
  "globals \<Rightarrow> 'a elem_ops \<Rightarrow> 'a SliceBase \<Rightarrow> string \<Rightarrow> error option \<times> 'a SliceBase" where
  "SliceBase_Set g ops i val =
     (if \<not> hasBeenSet i \<and> slice i = None then (Some (Panic ''nil slice''), i)
      else
        let i1 = (if \<not> hasBeenSet i then i\<lparr>slice := Some (Slice []), hasBeenSet := True\<rparr> else i)
        in if HasPrefix val (slPfx g)
           then (None, i1\<lparr>slice := unmarshalInto ops (removeFirst (slPfx g) val) (slice i1),
                          hasBeenSet := True\<rparr>)
           else let (e, sl) = appendTokens ops (hasValue i1) (flagSplitMultiValues g val) (slice i1)
                in (e, i1\<lparr>slice := sl\<rparr>))"

text \<open>\<open>SliceBase.Value\<close>, \<open>SliceBase.Serialize\<close>, \<open>SliceBase.ToString\<close> and \<open>SliceBase.String\<close>.\<close>

definition SliceBase_Value :: "'a SliceBase \<Rightarrow> 'a list" where
  "SliceBase_Value i = (case slice i of None \<Rightarrow> [] | Some x \<Rightarrow> elems x)"

definition SliceBase_Serialize :: "globals \<Rightarrow> 'a elem_ops \<Rightarrow> 'a SliceBase \<Rightarrow> string" where
  "SliceBase_Serialize g ops i =
     slPfx g @
       (case slice i of
          None \<Rightarrow> ''null''
        | Some NilSlice \<Rightarrow> ''null''
        | Some (Slice xs) \<Rightarrow> (case jsonMarshal ops xs of None \<Rightarrow> [] | Some js \<Rightarrow> js))"

definition SliceBase_ToString :: "'a elem_ops \<Rightarrow> 'a list \<Rightarrow> string" where
  "SliceBase_ToString ops t = Join (map (vcToString ops) t) '', ''"

definition SliceBase_String :: "'a elem_ops \<Rightarrow> 'a SliceBase \<Rightarrow> string" where
  "SliceBase_String ops i =
     (let v = SliceBase_Value i
      in if kindIsString ops then ''['' @ Join (map (fmtV ops) v) '' '' @ '']''
         else typeName ops @ ''{'' @ SliceBase_ToString ops v @ ''}'')"

text \<open>
  The tokens of a raw value, parsed one after the other, as \<open>SliceBase.Set\<close> does in its
  loop: the elements if every token parses, the first error otherwise.
\<close>

fun parseTokens :: "'a elem_ops \<Rightarrow> string list \<Rightarrow> error + 'a list" where
  "parseTokens ops [] = Inr []"
| "parseTokens ops (s # ss) =
     (case vcParse ops (TrimSpace s) of
        Inl e \<Rightarrow> Inl e
      | Inr t \<Rightarrow> (case parseTokens ops ss of Inl e \<Rightarrow> Inl e | Inr ts \<Rightarrow> Inr (t # ts)))"

section \<open>Flag sets, flags and commands\<close>

text \<open>What \<open>flag.Getter.Get\<close> returns for a registered value, as far as the getters read it.\<close>

datatype gvalue =
    VBool bool | VInt int | VUint64 "64 word" | VString string
  | VIntSlice "int list" | VUintSlice "nat list" | VStringSlice "string list"

text \<open>
  The standard library's \<open>flag.FlagSet\<close>, as the sources use it: \<open>formal\<close> holds the
  registered names with their current values (\<open>Lookup\<close>, \<open>VisitAll\<close>), \<open>actual\<close> the names
  set so far, in the order \<open>Visit\<close> reports them, \<open>fsArgs\<close> the arguments left after the
  flags (\<open>Args\<close>).
\<close>

record FlagSet =
  formal :: "(string \<times> gvalue) list"
  actual :: "string list"
  fsArgs :: "string list"

definition FlagSet_Lookup :: "FlagSet \<Rightarrow> string \<Rightarrow> gvalue option" where
  "FlagSet_Lookup fs name = map_of (formal fs) name"

definition NewFlagSet :: FlagSet where
  "NewFlagSet = \<lparr>formal = [], actual = [], fsArgs = []\<rparr>"

text \<open>
  \<open>flag.FlagSet.Var\<close>: registers a value under a name and panics when the name is
  already registered.
\<close>

definition FlagSet_Var :: "FlagSet \<Rightarrow> gvalue \<Rightarrow> string \<Rightarrow> error option \<times> FlagSet" where
  "FlagSet_Var fs v name =
     (if map_of (formal fs) name \<noteq> None then (Some (Panic ''flag redefined''), fs)
      else (None, fs\<lparr>formal := formal fs @ [(name, v)]\<rparr>))"

text \<open>
  The \<open>Flag\<close> interface, by what its methods return: \<open>Names()\<close>, \<open>IsSet()\<close>,
  \<open>IsRequired()\<close> (false for a flag that is no \<open>RequiredFlag\<close>), \<open>IsPersistent()\<close> (false
  for a flag that is no \<open>PersistentFlag\<close>), the value it registers, and the error its
  \<open>Apply\<close> reports when a value source does not parse.
\<close>

record Flag =
  flagNames :: "string list"
  flagIsSet :: bool
  flagIsRequired :: bool
  flagIsPersistent :: bool
  flagValue :: gvalue
  flagApplyErr :: "error option"

text \<open>
  Modelled from the spec: \<open>Flag.Apply\<close> is called by \<open>Command.parseFlags\<close>, its
  implementations are not among the sources. The spec: a value source ``that fails to
  parse is a hard error''; otherwise the flag's cell becomes settable in the flag set
  under every one of its names (``primary + aliases'').
\<close>

fun registerNames :: "gvalue \<Rightarrow> string list \<Rightarrow> FlagSet \<Rightarrow> error option \<times> FlagSet" where
  "registerNames v [] fs = (None, fs)"
| "registerNames v (n # ns) fs =
     (case FlagSet_Var fs v n of
        (Some e, fs') \<Rightarrow> (Some e, fs')
      | (None, fs') \<Rightarrow> registerNames v ns fs')"

definition Flag_Apply :: "Flag \<Rightarrow> FlagSet \<Rightarrow> error option \<times> FlagSet" where
  "Flag_Apply fl fs =
     (case flagApplyErr fl of
        Some e \<Rightarrow> (Some e, fs)
      | None \<Rightarrow> registerNames (flagValue fl) (flagNames fl) fs)"

text \<open>
  Modelled from the spec: \<open>newFlagSet\<close> is called by \<open>Command.newFlagSet\<close>, its body is
  not among the sources. It applies the flags in order into a fresh flag set and stops at
  the first error.
\<close>

fun applyAll :: "Flag list \<Rightarrow> FlagSet \<Rightarrow> error option \<times> FlagSet" where
  "applyAll [] fs = (None, fs)"
| "applyAll (f # fls) fs =
     (case Flag_Apply f fs of
        (Some e, fs') \<Rightarrow> (Some e, fs')
      | (None, fs') \<Rightarrow> applyAll fls fs')"

definition newFlagSet :: "Flag list \<Rightarrow> error option \<times> FlagSet" where
  "newFlagSet flags = applyAll flags NewFlagSet"

text \<open>
  A hook (\<open>Before\<close>, \<open>After\<close>, \<open>Action\<close>) is user code: \<open>None\<close> is a nil function, \<open>Some r\<close> a
  function whose call returns \<open>r\<close>.
\<close>

type_synonym hook = "error option option"

text \<open>
  \<open>Command\<close>, with the fields the modelled methods read. \<open>InvalidFlagAccessHandler\<close>
  tells whether the handler is non-nil. The back-reference \<open>parent\<close> is
  not a field: a method that walks upwards takes the command's lineage, the command
  itself followed by its ancestors from the nearest to the root, which is what
  \<open>Command.Lineage\<close> returns.
\<close>

datatype Command = Command
  (Name: string)
  (Aliases: "string list")
  (DefaultCommand: string)
  (Commands: "Command list")
  (Flags: "Flag list")
  (MutuallyExclusiveFlags: "Flag list list list")
  (Before: hook)
  (After: hook)
  (Action: hook)
  (InvalidFlagAccessHandler: bool)
  (EnableShellCompletion: bool)
  (SkipFlagParsing: bool)
  (OnUsageError: hook)
  (flagSet: "FlagSet option")

definition Names :: "Command \<Rightarrow> string list" where
  "Names cmd = [Name cmd] @ Aliases cmd"

definition HasName :: "Command \<Rightarrow> string \<Rightarrow> bool" where
  "HasName cmd name = (\<exists>n \<in> set (Names cmd). n = name)"

text \<open>\<open>Command.Command\<close>: the first child that has the name, \<open>None\<close> for nil.\<close>

definition Command_Command :: "Command \<Rightarrow> string \<Rightarrow> Command option" where
  "Command_Command cmd name = find (\<lambda>subCmd. HasName subCmd name) (Commands cmd)"

text \<open>
  A call of an \<open>InvalidFlagAccessHandler\<close>: the name of the command that holds the
  handler and the flag name that was asked for.
\<close>

type_synonym handler_call = "string \<times> string"

fun onInvalidFlag :: "Command list \<Rightarrow> string \<Rightarrow> handler_call list" where
  "onInvalidFlag [] name = []"
| "onInvalidFlag (cmd # parents) name =
     (if InvalidFlagAccessHandler cmd then [(Name cmd, name)] else onInvalidFlag parents name)"

fun findFlagSet :: "Command list \<Rightarrow> string \<Rightarrow> FlagSet option" where
  "findFlagSet [] name = None"
| "findFlagSet (pCmd # rest) name =
     (case flagSet pCmd of
        None \<Rightarrow> findFlagSet rest name
      | Some fs \<Rightarrow> if FlagSet_Lookup fs name \<noteq> None then Some fs else findFlagSet rest name)"

text \<open>\<open>Command.lookupFlagSet\<close>: the flag set found, and the handler calls made.\<close>

definition lookupFlagSet :: "Command list \<Rightarrow> string \<Rightarrow> FlagSet option \<times> handler_call list" where
  "lookupFlagSet lineage name =
     (case findFlagSet lineage name of
        Some fs \<Rightarrow> (Some fs, [])
      | None \<Rightarrow> (None, onInvalidFlag lineage name))"

text \<open>\<open>Command.lookupFlag\<close>.\<close>

definition lookupFlag :: "Command list \<Rightarrow> string \<Rightarrow> Flag option" where
  "lookupFlag lineage name =
     find (\<lambda>f. \<exists>n \<in> set (flagNames f). n = name) (concat (map Flags lineage))"

text \<open>\<open>Command.Value\<close>: \<open>None\<close> is the nil interface value.\<close>

definition Command_Value :: "Command list \<Rightarrow> string \<Rightarrow> gvalue option \<times> handler_call list" where
  "Command_Value lineage name =
     (case lookupFlagSet lineage name of
        (Some fs, calls) \<Rightarrow> (FlagSet_Lookup fs name, calls)
      | (None, calls) \<Rightarrow> (None, calls))"

text \<open>
  \<open>Command.Set\<close>. \<open>fsSet\<close> stands for the standard library's \<open>flag.FlagSet.Set\<close> on the flag
  set that was found; without one the method reports \<open>no such flag\<close>.
\<close>

definition Command_Set ::
  "(FlagSet \<Rightarrow> string \<Rightarrow> string \<Rightarrow> error option) \<Rightarrow> Command list \<Rightarrow> string \<Rightarrow> string \<Rightarrow>
     error option \<times> handler_call list" where
  "Command_Set fsSet lineage name val =
     (case lookupFlagSet lineage name of
        (Some fs, calls) \<Rightarrow> (fsSet fs name val, calls)
      | (None, calls) \<Rightarrow> (Some (Err (''no such flag -'' @ name)), calls))"

text \<open>The typed getters \<open>Uint64\<close>, \<open>IntSlice\<close> and \<open>UintSlice\<close>, on \<open>Value\<close>.\<close>

definition Command_Uint64 :: "Command list \<Rightarrow> string \<Rightarrow> 64 word \<times> handler_call list" where
  "Command_Uint64 lineage name =
     (case Command_Value lineage name of
        (Some (VUint64 v), calls) \<Rightarrow> (v, calls)
      | (_, calls) \<Rightarrow> (0, calls))"

definition Command_IntSlice :: "Command list \<Rightarrow> string \<Rightarrow> int list option \<times> handler_call list" where
  "Command_IntSlice lineage name =
     (case Command_Value lineage name of
        (Some (VIntSlice v), calls) \<Rightarrow> (Some v, calls)
      | (_, calls) \<Rightarrow> (None, calls))"

definition Command_UintSlice :: "Command list \<Rightarrow> string \<Rightarrow> nat list option \<times> handler_call list" where
  "Command_UintSlice lineage name =
     (case Command_Value lineage name of
        (Some (VUintSlice v), calls) \<Rightarrow> (Some v, calls)
      | (_, calls) \<Rightarrow> (None, calls))"

text \<open>\<open>Command.IsSet\<close>.\<close>

definition Command_IsSet :: "Command list \<Rightarrow> string \<Rightarrow> bool \<times> handler_call list" where
  "Command_IsSet lineage name =
     (case lookupFlagSet lineage name of
        (None, calls) \<Rightarrow> (False, calls)
      | (Some flSet, calls) \<Rightarrow>
          if (\<exists>f \<in> set (actual flSet). f = name) then (True, calls)
          else (case lookupFlag lineage name of
                  None \<Rightarrow> (False, calls)
                | Some fl \<Rightarrow> (flagIsSet fl, calls)))"

text \<open>
  \<open>Command.checkRequiredFlags\<close>. The inner loop runs over all names of a flag and keeps
  the last one as \<open>flagName\<close>; the outer loop collects the names of the missing flags.
\<close>

fun namesLoop ::
  "Command list \<Rightarrow> string list \<Rightarrow> bool \<times> string \<times> handler_call list \<Rightarrow>
     bool \<times> string \<times> handler_call list" where
  "namesLoop lineage [] st = st"
| "namesLoop lineage (key # keys) (flagPresent, flagName, calls) =
     (let (isSet, cs) = Command_IsSet lineage (TrimSpace key)
      in namesLoop lineage keys (if isSet then True else flagPresent, key, calls @ cs))"

fun requiredLoop ::
  "Command list \<Rightarrow> Flag list \<Rightarrow> string list \<times> handler_call list \<Rightarrow>
     string list \<times> handler_call list" where
  "requiredLoop lineage [] st = st"
| "requiredLoop lineage (f # fls) (missingFlags, calls) =
     (if flagIsRequired f
      then let (flagPresent, flagName, calls') = namesLoop lineage (flagNames f) (False, [], calls)
           in requiredLoop lineage fls
                (if \<not> flagPresent \<and> flagName \<noteq> [] then missingFlags @ [flagName] else missingFlags,
                 calls')
      else requiredLoop lineage fls (missingFlags, calls))"

definition checkRequiredFlags :: "Command list \<Rightarrow> error option \<times> handler_call list" where
  "checkRequiredFlags lineage =
     (case lineage of
        [] \<Rightarrow> (Some (Panic ''nil command''), [])
      | cmd # parents \<Rightarrow>
          let (missingFlags, calls) = requiredLoop lineage (Flags cmd) ([], [])
          in if length missingFlags \<noteq> 0 then (Some (RequiredFlagsErr missingFlags), calls)
             else (None, calls))"


section \<open>Parsing: persistent flags\<close>

text \<open>\<open>Command.allFlags\<close>: the command's flags, then those of its exclusive groups.\<close>

definition allFlags :: "Command \<Rightarrow> Flag list" where
  "allFlags cmd = Flags cmd @ concat (map concat (MutuallyExclusiveFlags cmd))"

text \<open>
  The walk of \<open>Command.parseFlags\<close> over the ancestors, from the nearest to the root.
  The state is the command's flag set and its \<open>appliedFlags\<close>. \<open>persistentOf\<close> is the
  inner loop over the flags of one ancestor: a flag that is not persistent is skipped;
  a persistent flag one of whose names the flag set already knows (\<open>VisitAll\<close>) is
  skipped; any other is applied and appended to \<open>appliedFlags\<close>. An error from \<open>Apply\<close>
  ends the walk.
\<close>

definition nameKnown :: "FlagSet \<Rightarrow> string list \<Rightarrow> bool" where
  "nameKnown fs flNames = (\<exists>f \<in> set (map fst (formal fs)). \<exists>name \<in> set flNames. name = f)"

fun persistentOf :: "Flag list \<Rightarrow> FlagSet \<times> Flag list \<Rightarrow> error option \<times> FlagSet \<times> Flag list" where
  "persistentOf [] st = (None, st)"
| "persistentOf (fl # fls) (fs, applied) =
     (if \<not> flagIsPersistent fl then persistentOf fls (fs, applied)
      else if nameKnown fs (flagNames fl) then persistentOf fls (fs, applied)
      else case Flag_Apply fl fs of
             (Some err, fs') \<Rightarrow> (Some err, fs', applied)
           | (None, fs') \<Rightarrow> persistentOf fls (fs', applied @ [fl]))"

fun walkAncestors :: "Command list \<Rightarrow> FlagSet \<times> Flag list \<Rightarrow> error option \<times> FlagSet \<times> Flag list" where
  "walkAncestors [] st = (None, st)"
| "walkAncestors (pCmd # rest) st =
     (case persistentOf (Flags pCmd) st of
        (Some err, st') \<Rightarrow> (Some err, st')
      | (None, st') \<Rightarrow> walkAncestors rest st')"

text \<open>
  Modelled from the spec: the methods \<open>Tail\<close>, \<open>First\<close> and \<open>Present\<close> of \<open>Args\<close> are called
  by \<open>Command.parseFlags\<close> and \<open>Command.Run\<close>, their bodies are not among the sources. The
  spec: ``the first positional token, if present'', ``the remaining positional tail''.
  The first argument of a run is the name under which the command was called.
\<close>

definition Tail :: "string list \<Rightarrow> string list" where
  "Tail v = (if length v \<ge> 2 then tl v else [])"

definition First :: "string list \<Rightarrow> string" where
  "First v = (case v of [] \<Rightarrow> [] | x # _ \<Rightarrow> x)"

definition Present :: "string list \<Rightarrow> bool" where
  "Present v = (length v \<noteq> 0)"

text \<open>
  The two parsing steps of \<open>Command.parseFlags\<close> whose code is not among the sources, as
  parameters: \<open>parseIter\<close> consumes the arguments against the flag set, \<open>normalizeFlags\<close>
  reconciles the names of each flag. Each returns its error and the flag set afterwards.
\<close>

record parse_lib =
  parseIter :: "FlagSet \<Rightarrow> string list \<Rightarrow> error option \<times> FlagSet"
  normalizeFlags :: "Flag list \<Rightarrow> FlagSet \<Rightarrow> error option \<times> FlagSet"

text \<open>
  \<open>Command.parseFlags\<close>, for the command \<open>cmd\<close> with the ancestors \<open>parents\<close> and the
  arguments \<open>args\<close>: the arguments and the error it returns, the flag set of the command
  afterwards and its \<open>appliedFlags\<close>. With \<open>SkipFlagParsing\<close> the arguments returned are
  those the fresh flag set holds before \<open>Parse\<close> stores the tail (Go evaluates the
  operands of the \<open>return\<close> from left to right).
\<close>

definition parseFlags ::
  "parse_lib \<Rightarrow> Command \<Rightarrow> Command list \<Rightarrow> Flag list \<Rightarrow> string list \<Rightarrow>
     (string list \<times> error option) \<times> FlagSet option \<times> Flag list" where
  "parseFlags lib cmd parents appliedFlags args =
     (let applied1 = appliedFlags @ allFlags cmd in
      (case newFlagSet (allFlags cmd) of
         (Some err, v) \<Rightarrow> ((args, Some err), flagSet cmd, applied1)
       | (None, v) \<Rightarrow>
           (if SkipFlagParsing cmd
            then ((fsArgs v, None), Some (v\<lparr>fsArgs := Tail args\<rparr>), applied1)
            else (case walkAncestors parents (v, applied1) of
                    (Some err, fs, applied) \<Rightarrow> ((fsArgs fs, Some err), Some fs, applied)
                  | (None, fs, applied) \<Rightarrow>
                      (case parseIter lib fs (Tail args) of
                         (Some err, fs1) \<Rightarrow> ((fsArgs fs1, Some err), Some fs1, applied)
                       | (None, fs1) \<Rightarrow>
                           (case normalizeFlags lib (Flags cmd) fs1 of
                              (Some err, fs2) \<Rightarrow> ((fsArgs fs2, Some err), Some fs2, applied)
                            | (None, fs2) \<Rightarrow> ((fsArgs fs2, None), Some fs2, applied)))))))"

text \<open>
  The effective flag set in the words of the spec: the command's own flags, then each
  ancestor flag marked persistent none of whose names is already present, the
  ancestors' flags read from the nearest ancestor to the root. \<open>seen\<close> are the names
  present so far.
\<close>

fun inherited :: "string set \<Rightarrow> Flag list \<Rightarrow> Flag list" where
  "inherited seen [] = []"
| "inherited seen (fl # fls) =
     (if flagIsPersistent fl \<and> set (flagNames fl) \<inter> seen = {}
      then fl # inherited (seen \<union> set (flagNames fl)) fls
      else inherited seen fls)"

definition flagNamesOf :: "Flag list \<Rightarrow> string set" where
  "flagNamesOf fls = \<Union> (set (map (\<lambda>fl. set (flagNames fl)) fls))"

definition effectiveFlags :: "Command \<Rightarrow> Command list \<Rightarrow> Flag list" where
  "effectiveFlags cmd parents =
     allFlags cmd @ inherited (flagNamesOf (allFlags cmd)) (concat (map Flags parents))"

section \<open>Command resolution\<close>

text \<open>
  \<open>makeFlagNameVisitor\<close>: of the comma-separated parts of a flag's name the longest,
  trimmed; an empty name is not recorded.
\<close>

fun longestPart :: "string list \<Rightarrow> string \<Rightarrow> string" where
  "longestPart [] name = name"
| "longestPart (part # parts) name =
     (let part' = TrimSpace part
      in longestPart parts (if length part' > length name then part' else name))"

definition flagNameVisitor :: "string \<Rightarrow> string list" where
  "flagNameVisitor fName =
     (let nameParts = Split fName '','';
          name = longestPart nameParts (TrimSpace (First nameParts))
      in if name \<noteq> [] then [name] else [])"

text \<open>The removal of duplicates in \<open>LocalFlagNames\<close>: the first occurrence stays.\<close>

fun uniqNames :: "string list \<Rightarrow> string list \<Rightarrow> string list" where
  "uniqNames m [] = []"
| "uniqNames m (name # names) =
     (if name \<in> set m then uniqNames m names else name # uniqNames (name # m) names)"

text \<open>
  \<open>Command.LocalFlagNames\<close> and \<open>Command.FlagNames\<close>. Visiting a nil flag set panics.
\<close>

definition LocalFlagNames :: "Command \<Rightarrow> error + string list" where
  "LocalFlagNames cmd =
     (case flagSet cmd of
        None \<Rightarrow> Inl (Panic ''nil flag set'')
      | Some fs \<Rightarrow>
          Inr (uniqNames []
                 (concat (map flagNameVisitor (actual fs)) @
                  concat (map flagNames (filter flagIsSet (Flags cmd))))))"

fun FlagNames :: "Command list \<Rightarrow> error + string list" where
  "FlagNames [] = Inr []"
| "FlagNames (cmd # parents) =
     (case LocalFlagNames cmd of
        Inl e \<Rightarrow> Inl e
      | Inr names \<Rightarrow>
          (case FlagNames parents of
             Inl e \<Rightarrow> Inl e
           | Inr pnames \<Rightarrow> Inr (pnames @ names)))"

definition checkStringSliceIncludes :: "string \<Rightarrow> string list \<Rightarrow> bool" where
  "checkStringSliceIncludes want sSlice = (\<exists>s \<in> set sSlice. want = s)"

text \<open>\<open>Command.argsWithDefaultCommand\<close>.\<close>

definition argsWithDefaultCommand :: "Command \<Rightarrow> string list \<Rightarrow> string list" where
  "argsWithDefaultCommand cmd oldArgs =
     (if DefaultCommand cmd \<noteq> [] then [DefaultCommand cmd] @ oldArgs else oldArgs)"

text \<open>
  The resolution of the sub-command in \<open>Command.Run\<close>, for the positional arguments
  \<open>args\<close> that \<open>parseFlags\<close> returned: \<open>Inr (Some subCmd)\<close>, \<open>Inr None\<close> when \<open>subCmd\<close> stays
  nil, \<open>Inl\<close> for a panic. \<open>suggest\<close> is \<open>cmd.SuggestCommandFunc\<close>. Reading \<open>dc.Commands\<close>
  through a nil \<open>dc\<close> is a nil pointer dereference. A child is never the command itself
  in a tree, so \<open>dc != cmd\<close> holds in the branch without arguments.
\<close>

definition fallbackFlags :: "Command \<Rightarrow> string \<Rightarrow> error + bool \<times> bool" where
  "fallbackFlags cmd name =
     (if DefaultCommand cmd \<noteq> []
      then case Command_Command cmd (DefaultCommand cmd) of
             None \<Rightarrow> Inl (Panic ''nil pointer dereference'')
           | Some dc \<Rightarrow>
               Inr (length (Commands dc) > 0,
                    (\<exists>dcSub \<in> set (Commands dc). checkStringSliceIncludes name (Names dcSub)))
      else Inr (False, False))"

text \<open>The block of \<open>Command.Run\<close> entered when no child has the name.\<close>

definition defaultFallback :: "Command list \<Rightarrow> Command \<Rightarrow> string \<Rightarrow> string list \<Rightarrow> error + Command option" where
  "defaultFallback lineage cmd name args =
     (let hasDefault = (DefaultCommand cmd \<noteq> [])
      in case FlagNames lineage of
           Inl e \<Rightarrow> Inl e
         | Inr fnames \<Rightarrow>
             (let isFlagName = checkStringSliceIncludes name fnames
              in case fallbackFlags cmd name of
                   Inl e \<Rightarrow> Inl e
                 | Inr (defaultHasSubcommands, isDefaultSubcommand) \<Rightarrow>
                     (if isFlagName \<or> (hasDefault \<and> (defaultHasSubcommands \<and> isDefaultSubcommand))
                      then (let argsWithDefault = argsWithDefaultCommand cmd args
                            in if args \<noteq> argsWithDefault
                               then Inr (Command_Command cmd (First argsWithDefault))
                               else Inr None)
                      else Inr None)))"

definition resolveSubcommand ::
  "(Command list \<Rightarrow> string \<Rightarrow> string) option \<Rightarrow> Command list \<Rightarrow> string list \<Rightarrow>
     error + Command option" where
  "resolveSubcommand suggest lineage args =
     (case lineage of
        [] \<Rightarrow> Inl (Panic ''nil command'')
      | cmd # parents \<Rightarrow>
          (if Present args
           then (let name0 = First args;
                     name = (case suggest of None \<Rightarrow> name0 | Some f \<Rightarrow> f (Commands cmd) name0)
                 in case Command_Command cmd name of
                      Some subCmd \<Rightarrow> Inr (Some subCmd)
                    | None \<Rightarrow> defaultFallback lineage cmd name args)
           else (if parents = [] \<and> DefaultCommand cmd \<noteq> []
                 then Inr (Command_Command cmd (DefaultCommand cmd))
                 else Inr None)))"

section \<open>Dispatch: \<open>Command.Run\<close>\<close>

text \<open>
  What a run does that a caller can observe, in order: each call of a hook, a
  handler or a printing helper, and the run of a sub-command with its arguments.
\<close>

datatype event =
    EvOnUsageError | EvIncorrectUsage | EvHelp | EvShowVersion | EvShowSubcommandHelp
  | EvBefore | EvFlagActions | EvAction | EvAfter
  | EvHandleExit "error option"
  | EvInvalidFlag handler_call
  | EvSubRun string "string list"

text \<open>
  The outcomes of the calls in \<open>Run\<close> whose code is not among the sources:
  \<open>checkCompletions\<close>, \<open>checkHelp\<close> with the error of \<open>helpCommandAction\<close>, the version check
  (\<open>!cmd.HideVersion && checkVersion(cmd)\<close>), the first failing exclusive group,
  \<open>runFlagActions\<close> on flag actions that are user code, \<open>SuggestCommandFunc\<close>, and the run
  of the sub-command, which is a \<open>Run\<close> of its own.
\<close>

record run_env =
  completions :: bool
  helpWanted :: bool
  helpResult :: "error option"
  versionWanted :: bool
  groupErr :: "error option"
  flagActionsErr :: "error option"
  suggestFunc :: "(Command list \<Rightarrow> string \<Rightarrow> string) option"
  subRun :: "Command \<Rightarrow> string list \<Rightarrow> event list \<times> error option"

text \<open>
  \<open>Command.handleExitCoder\<close> walks to the root, calls the root's handler (its
  \<open>ExitErrHandler\<close>, or \<open>HandleExitCoder\<close> when none is configured) and returns the error
  as it is. What the handler itself does is outside the sources; the call is recorded.
\<close>

definition handleExitCoder :: "error option \<Rightarrow> event list \<times> error option" where
  "handleExitCoder err = ([EvHandleExit err], err)"

text \<open>
  The deferred function of \<open>Run\<close>: it calls \<open>After\<close> and merges its error into
  \<open>deferErr\<close>. \<open>newMultiError\<close>, whose code is not among the sources, keeps the errors it
  is given, in order. A panic passes through the deferred function.
\<close>

definition runAfter :: "hook \<Rightarrow> event list \<times> error option \<Rightarrow> event list \<times> error option" where
  "runAfter after r =
     (case r of (evs, deferErr) \<Rightarrow>
        (case after of
           None \<Rightarrow> (evs, deferErr)
         | Some None \<Rightarrow> (evs @ [EvAfter], deferErr)
         | Some (Some err) \<Rightarrow>
             (case deferErr of
                Some (Panic p) \<Rightarrow> (evs @ [EvAfter, EvHandleExit (Some err)], Some (Panic p))
              | Some d \<Rightarrow> (evs @ [EvAfter, EvHandleExit (Some err)], Some (MultiError [d, err]))
              | None \<Rightarrow> (evs @ [EvAfter, EvHandleExit (Some err)], Some err))))"

text \<open>
  The end of \<open>Run\<close>: the sub-command is resolved and run, or the action is called.
  After \<open>setupDefaults\<close> the action is never nil; \<open>helpResult\<close> is what the default
  action returns.
\<close>

definition runDispatch :: "run_env \<Rightarrow> Command list \<Rightarrow> string list \<Rightarrow> event list \<times> error option" where
  "runDispatch env lineage args =
     (case resolveSubcommand (suggestFunc env) lineage args of
        Inl e \<Rightarrow> ([], Some e)
      | Inr (Some subCmd) \<Rightarrow>
          (case lineage of
             [] \<Rightarrow> ([], Some (Panic ''nil command''))
           | cmd # parents \<Rightarrow>
               (case flagSet cmd of
                  None \<Rightarrow> ([], Some (Panic ''nil flag set''))
                | Some fs \<Rightarrow>
                    (case subRun env subCmd (fsArgs fs) of
                       (evs, r) \<Rightarrow> (EvSubRun (Name subCmd) (fsArgs fs) # evs, r))))
      | Inr None \<Rightarrow>
          (case lineage of
             [] \<Rightarrow> ([], Some (Panic ''nil command''))
           | cmd # parents \<Rightarrow>
               (case (case Action cmd of None \<Rightarrow> helpResult env | Some r \<Rightarrow> r) of
                  None \<Rightarrow> ([EvAction], None)
                | Some err \<Rightarrow> (EvAction # fst (handleExitCoder (Some err)), Some err))))"

text \<open>The part of \<open>Run\<close> between the registration of the deferred function and the dispatch.\<close>

definition runChecked :: "run_env \<Rightarrow> Command list \<Rightarrow> string list \<Rightarrow> event list \<times> error option" where
  "runChecked env lineage args =
     (case lineage of
        [] \<Rightarrow> ([], Some (Panic ''nil command''))
      | cmd # parents \<Rightarrow>
          (case checkRequiredFlags lineage of
             (Some err, calls) \<Rightarrow> (map EvInvalidFlag calls @ [EvShowSubcommandHelp], Some err)
           | (None, calls) \<Rightarrow>
               (case groupErr env of
                  Some err \<Rightarrow> (map EvInvalidFlag calls @ [EvShowSubcommandHelp], Some err)
                | None \<Rightarrow>
                    (case (if EnableShellCompletion cmd then None else Before cmd) of
                       Some (Some err) \<Rightarrow>
                         (map EvInvalidFlag calls @ [EvBefore] @ fst (handleExitCoder (Some err)), Some err)
                     | b \<Rightarrow>
                         (let pre = map EvInvalidFlag calls @ (if b = None then [] else [EvBefore]) @ [EvFlagActions]
                          in case flagActionsErr env of
                               Some err \<Rightarrow> (pre, Some err)
                             | None \<Rightarrow>
                                 (case runDispatch env lineage args of
                                    (evs, r) \<Rightarrow> (pre @ evs, r)))))))"

text \<open>
  \<open>Command.Run\<close> from the return of \<open>parseFlags\<close> on: \<open>lineage\<close> is the command, with the
  flag set that \<open>parseFlags\<close> stored, followed by its ancestors; \<open>args\<close> and \<open>parseErr\<close> are
  what \<open>parseFlags\<close> returned. The result is what the run did and the error it returns.
\<close>

definition Run ::
  "run_env \<Rightarrow> Command list \<Rightarrow> string list \<Rightarrow> error option \<Rightarrow> event list \<times> error option" where
  "Run env lineage args parseErr =
     (case lineage of
        [] \<Rightarrow> ([], Some (Panic ''nil command''))
      | cmd # parents \<Rightarrow>
          (if completions env then ([], None)
           else (case parseErr of
                   Some err \<Rightarrow>
                     (case OnUsageError cmd of
                        Some r \<Rightarrow> (EvOnUsageError # fst (handleExitCoder r), r)
                      | None \<Rightarrow> ([EvIncorrectUsage], Some err))
                 | None \<Rightarrow>
                     (if helpWanted env then ([EvHelp], helpResult env)
                      else if parents = [] \<and> versionWanted env then ([EvShowVersion], None)
                      else if After cmd \<noteq> None \<and> \<not> EnableShellCompletion cmd
                           then runAfter (After cmd) (runChecked env lineage args)
                           else runChecked env lineage args))))"


section \<open>Value sources\<close>

text \<open>
  A collection flag as far as the resolution of its value reads it: the declared
  default \<open>Value\<close> and the names of its \<open>Sources\<close>, in order.
\<close>

record 'a SliceFlag =
  sfValue :: "'a list"
  sfSources :: "string list"

text \<open>
  Modelled from the spec: the value source chain is not among the sources. The spec:
  ``probe each in order and return the first value found (missing/unset sources are
  skipped, not errors)'', ``first non-empty match wins''. The process environment is a
  map from names to values.
\<close>

fun LookupWithSource :: "(string \<Rightarrow> string option) \<Rightarrow> string list \<Rightarrow> string option" where
  "LookupWithSource env [] = None"
| "LookupWithSource env (src # srcs) =
     (case env src of
        None \<Rightarrow> LookupWithSource env srcs
      | Some val \<Rightarrow> if val = [] then LookupWithSource env srcs else Some val)"

text \<open>
  Modelled from the spec: \<open>FlagBase.Apply\<close> is not among the sources; the tests
  \<open>TestParseMultiStringSliceWithDestinationAndEnv\<close> and
  \<open>TestParseMultiStringSliceFromEnvWithDefaults\<close> call it through \<open>Run\<close>. The spec: the value
  of the sources ``is fed into the cell's set() before command-line parsing''; ``a source
  value that fails to parse is a hard error''; the declared default ``is used only when no
  source produced a value''; and a collection cell clears its content at ``the first set()
  of the current parse''. So the value of the sources is set on a cell created from the
  default, and the cell handed to the parse is created (\<open>SliceBase.Create\<close>) from the
  outcome, which makes the next \<open>Set\<close> the first of the parse. The result is that cell
  and whether a source supplied the value.
\<close>

definition SliceFlag_Apply ::
  "globals \<Rightarrow> 'a elem_ops \<Rightarrow> (string \<Rightarrow> string option) \<Rightarrow> 'a SliceFlag \<Rightarrow> error + 'a SliceBase \<times> bool" where
  "SliceFlag_Apply g ops env f =
     (case LookupWithSource env (sfSources f) of
        None \<Rightarrow> Inr (SliceBase_Create (sfValue f), False)
      | Some val \<Rightarrow>
          (case SliceBase_Set g ops (SliceBase_Create (sfValue f)) val of
             (Some e, tmpVal) \<Rightarrow> Inl e
           | (None, tmpVal) \<Rightarrow> Inr (SliceBase_Create (SliceBase_Value tmpVal), True)))"

text \<open>
  The standard library's \<open>flag.FlagSet.Parse\<close> calls \<open>Set\<close> on the value of a flag once
  for each occurrence of the flag on the command line, in order, and stops at the first
  error. \<open>occs\<close> are the raw values of the occurrences.
\<close>

fun setOccurrences ::
  "globals \<Rightarrow> 'a elem_ops \<Rightarrow> 'a SliceBase \<Rightarrow> string list \<Rightarrow> error option \<times> 'a SliceBase" where
  "setOccurrences g ops c [] = (None, c)"
| "setOccurrences g ops c (v # vs) =
     (case SliceBase_Set g ops c v of
        (Some e, c') \<Rightarrow> (Some e, c')
      | (None, c') \<Rightarrow> setOccurrences g ops c' vs)"

definition resolveSliceFlag ::
  "globals \<Rightarrow> 'a elem_ops \<Rightarrow> (string \<Rightarrow> string option) \<Rightarrow> 'a SliceFlag \<Rightarrow> string list \<Rightarrow> error + 'a list" where
  "resolveSliceFlag g ops env f occs =
     (case SliceFlag_Apply g ops env f of
        Inl e \<Rightarrow> Inl e
      | Inr (cell, fromSource) \<Rightarrow>
          (case setOccurrences g ops cell occs of
             (Some e, cell') \<Rightarrow> Inl e
           | (None, cell') \<Rightarrow> Inr (SliceBase_Value cell')))"

text \<open>What a list of raw values supplies: the elements of each value, in order.\<close>

fun parseValues :: "globals \<Rightarrow> 'a elem_ops \<Rightarrow> string list \<Rightarrow> error + 'a list" where
  "parseValues g ops [] = Inr []"
| "parseValues g ops (v # vs) =
     (case parseTokens ops (flagSplitMultiValues g v) of
        Inl e \<Rightarrow> Inl e
      | Inr ts \<Rightarrow> (case parseValues g ops vs of Inl e \<Rightarrow> Inl e | Inr r \<Rightarrow> Inr (ts @ r)))"

section \<open>An instance: slices of 64-bit integers\<close>

text \<open>
  Decimal literals. \<open>parseDecimal\<close> reads an optional sign and decimal digits and checks
  the range of \<open>int64\<close>; this is the decimal part of what \<open>strconv.ParseInt(s, 0, 64)\<close>
  accepts. \<open>showInt\<close> prints as \<open>strconv.FormatInt(i, 10)\<close> does.
\<close>

definition digitOf :: "char \<Rightarrow> nat option" where
  "digitOf c = map_of
     [(CHR ''0'', 0), (CHR ''1'', 1), (CHR ''2'', 2), (CHR ''3'', 3), (CHR ''4'', 4),
      (CHR ''5'', 5), (CHR ''6'', 6), (CHR ''7'', 7), (CHR ''8'', 8), (CHR ''9'', 9)] c"

fun parseDigits :: "nat \<Rightarrow> string \<Rightarrow> nat option" where
  "parseDigits acc [] = Some acc"
| "parseDigits acc (c # cs) =
     (case digitOf c of None \<Rightarrow> None | Some d \<Rightarrow> parseDigits (10 * acc + d) cs)"

definition inInt64 :: "int \<Rightarrow> bool" where
  "inInt64 i = (- (2 ^ 63) \<le> i \<and> i < 2 ^ 63)"

definition parseDecimal :: "string \<Rightarrow> error + int" where
  "parseDecimal s =
     (let (neg, ds) = (case s of
                         c # cs \<Rightarrow> if c = CHR ''-'' then (True, cs)
                                   else if c = CHR ''+'' then (False, cs) else (False, s)
                       | [] \<Rightarrow> (False, s))
      in if ds = [] then Inl (Err ''invalid syntax'')
         else case parseDigits 0 ds of
                None \<Rightarrow> Inl (Err ''invalid syntax'')
              | Some n \<Rightarrow>
                  (let i = (if neg then - int n else int n)
                   in if inInt64 i then Inr i else Inl (Err ''value out of range'')))"

definition digitChar :: "nat \<Rightarrow> char" where
  "digitChar d = ''0123456789'' ! d"

fun showNat :: "nat \<Rightarrow> string" where
  "showNat n = (if n < 10 then [digitChar n] else showNat (n div 10) @ [digitChar (n mod 10)])"

declare showNat.simps [simp del]

definition showInt :: "int \<Rightarrow> string" where
  "showInt i = (if i < 0 then CHR ''-'' # showNat (nat (- i)) else showNat (nat i))"

text \<open>
  The JSON texts of \<open>[]int64\<close>: \<open>marshalInts\<close> is \<open>json.Marshal\<close> on a non-nil slice;
  \<open>unmarshalInts\<close> classifies \<open>null\<close> and the arrays of integer literals written without
  white space, which are the texts \<open>json.Marshal\<close> produces. Any other text is classed
  \<open>JInvalid\<close> here, as a malformed text is.
\<close>

definition marshalInts :: "int list \<Rightarrow> string option" where
  "marshalInts xs = Some (''['' @ Join (map showInt xs) '','' @ '']'')"

definition jsonInt :: "string \<Rightarrow> int option" where
  "jsonInt tok =
     (if tok = [] \<or> hd tok = CHR ''+'' then None
      else case parseDecimal tok of Inl e \<Rightarrow> None | Inr i \<Rightarrow> Some i)"

fun allSome :: "'a option list \<Rightarrow> 'a list option" where
  "allSome [] = Some []"
| "allSome (None # xs) = None"
| "allSome (Some x # xs) = (case allSome xs of None \<Rightarrow> None | Some ys \<Rightarrow> Some (x # ys))"

definition unmarshalInts :: "string \<Rightarrow> int json" where
  "unmarshalInts data =
     (if data = ''null'' then JNull
      else if length data \<ge> 2 \<and> hd data = CHR ''['' \<and> last data = CHR '']''
           then (let inner = butlast (tl data)
                 in if inner = [] then JArray []
                    else case allSome (map jsonInt (Split inner '','')) of
                           None \<Rightarrow> JInvalid
                         | Some xs \<Rightarrow> JArray xs)
           else JInvalid)"

definition int64Ops :: "int elem_ops" where
  "int64Ops =
     \<lparr>vcParse = parseDecimal, vcToString = showInt, fmtV = showInt, kindIsString = False,
      typeName = ''[]int64'', jsonMarshal = marshalInts, jsonUnmarshal = unmarshalInts\<rparr>"

definition testGlobals :: globals where
  "testGlobals =
     \<lparr>slPfx = ''sl:::1700000000000000000:::'', defaultSliceFlagSeparator = '','',
      disableSliceFlagSeparator = False\<rparr>"

section \<open>The claims' own notions\<close>

text \<open>
  A flag name is known to a lineage when the flag set of the command or of one of its
  ancestors has it registered.
\<close>

definition flagKnown :: "Command list \<Rightarrow> string \<Rightarrow> bool" where
  "flagKnown lineage name =
     (\<exists>c \<in> set lineage. case flagSet c of None \<Rightarrow> False | Some fs \<Rightarrow> FlagSet_Lookup fs name \<noteq> None)"

text \<open>The nearest command of a lineage that has an \<open>InvalidFlagAccessHandler\<close>.\<close>

definition nearestHandler :: "Command list \<Rightarrow> Command option" where
  "nearestHandler lineage = find InvalidFlagAccessHandler lineage"

text \<open>
  A flag is unset when \<open>IsSet\<close> holds for none of its names. The name under which a
  missing flag is reported is the last of its names.
\<close>

definition flagUnset :: "Command list \<Rightarrow> Flag \<Rightarrow> bool" where
  "flagUnset lineage f = (\<not> (\<exists>key \<in> set (flagNames f). fst (Command_IsSet lineage (TrimSpace key))))"

definition reportedName :: "Flag \<Rightarrow> string" where
  "reportedName f = (if flagNames f = [] then [] else last (flagNames f))"

definition missingRequired :: "Command list \<Rightarrow> Flag list \<Rightarrow> Flag list" where
  "missingRequired lineage fls =
     filter (\<lambda>f. flagIsRequired f \<and> flagUnset lineage f \<and> reportedName f \<noteq> []) fls"

section \<open>Example commands\<close>

definition plainFlag :: "string list \<Rightarrow> Flag" where
  "plainFlag names =
     \<lparr>flagNames = names, flagIsSet = False, flagIsRequired = False, flagIsPersistent = False,
      flagValue = VString [], flagApplyErr = None\<rparr>"

definition requiredFlag :: "string list \<Rightarrow> Flag" where
  "requiredFlag names = (plainFlag names)\<lparr>flagIsRequired := True\<rparr>"

definition persistentFlag :: "string list \<Rightarrow> Flag" where
  "persistentFlag names = (plainFlag names)\<lparr>flagIsPersistent := True\<rparr>"

text \<open>
  A command with the given name, default command, children and flags, no hook and no
  handler, whose flag set has the names of its own flags registered and nothing set.
\<close>

definition simpleCommand :: "string \<Rightarrow> string \<Rightarrow> Command list \<Rightarrow> Flag list \<Rightarrow> Command" where
  "simpleCommand name dflt children fls =
     Command name [] dflt children fls [] None None None False False False None
       (Some (snd (newFlagSet fls)))"

text \<open>An error value that a hook returns is not a panic.\<close>

fun isPanic :: "error \<Rightarrow> bool" where
  "isPanic (Panic p) = True"
| "isPanic e = False"

text \<open>
  An environment in which no completion, help or version is asked for, no exclusive
  group and no flag action fails, no suggestion function is set, and a sub-command's run
  does nothing and returns no error.
\<close>

definition quietEnv :: run_env where
  "quietEnv =
     \<lparr>completions = False, helpWanted = False, helpResult = None, versionWanted = False,
      groupErr = None, flagActionsErr = None, suggestFunc = None,
      subRun = (\<lambda>subCmd args. ([], None))\<rparr>"

text \<open>A command without flags and children, with the three hooks given.\<close>

definition hookCommand :: "hook \<Rightarrow> hook \<Rightarrow> hook \<Rightarrow> Command" where
  "hookCommand before after action =
     Command ''app'' [] [] [] [] [] before after action False False False None
       (Some NewFlagSet)"

text \<open>
  The parsing steps on a command line without flag tokens: every argument is
  positional and no flag needs reconciling.
\<close>

definition positionalLib :: parse_lib where
  "positionalLib =
     \<lparr>parseIter = (\<lambda>fs args. (None, fs\<lparr>fsArgs := args\<rparr>)),
      normalizeFlags = (\<lambda>fls fs. (None, fs))\<rparr>"


section \<open>The collection cell: lemmas\<close>

lemma HasPrefix_append: "HasPrefix (p @ s) p"
  by (simp add: HasPrefix_def)

lemma removeFirst_append: "removeFirst p (p @ s) = s"
proof (cases "p @ s")
  case Nil
  then show ?thesis by simp
next
  case (Cons a list)
  have "take (length p) (a # list) = p" and "drop (length p) (a # list) = s"
    by (simp_all flip: Cons)
  then show ?thesis by (simp add: Cons)
qed

lemma appendTokens_None:
  "appendTokens ops hv ss sl = (None, sl') \<Longrightarrow>
     \<exists>ts. parseTokens ops ss = Inr ts \<and>
       (case sl' of None \<Rightarrow> [] | Some x \<Rightarrow> elems x) = (case sl of None \<Rightarrow> [] | Some x \<Rightarrow> elems x) @ ts"
proof (induction ss arbitrary: sl)
  case Nil
  then show ?case by auto
next
  case (Cons s ss)
  from Cons.prems obtain t x where hv: hv and p: "vcParse ops (TrimSpace s) = Inr t"
    and sl: "sl = Some x"
    and rest: "appendTokens ops hv ss (Some (Slice (elems x @ [t]))) = (None, sl')"
    by (auto split: if_splits sum.splits option.splits)
  from Cons.IH [OF rest] obtain ts where "parseTokens ops ss = Inr ts"
    and "(case sl' of None \<Rightarrow> [] | Some x \<Rightarrow> elems x) = (elems x @ [t]) @ ts"
    by auto
  then show ?case using p sl by simp
qed

lemma SliceBase_Set_plain:
  assumes "\<not> HasPrefix val (slPfx g)" and "SliceBase_Set g ops i val = (None, i')"
  shows "\<exists>ts. parseTokens ops (flagSplitMultiValues g val) = Inr ts \<and>
           SliceBase_Value i' = (if hasBeenSet i then SliceBase_Value i @ ts else ts) \<and>
           hasBeenSet i'"
proof -
  let ?i1 = "if \<not> hasBeenSet i then i\<lparr>slice := Some (Slice []), hasBeenSet := True\<rparr> else i"
  from assms obtain sl where
    app: "appendTokens ops (hasValue ?i1) (flagSplitMultiValues g val) (slice ?i1) = (None, sl)"
    and i': "i' = ?i1\<lparr>slice := sl\<rparr>"
    by (auto simp: SliceBase_Set_def Let_def split: if_splits prod.splits)
  from appendTokens_None [OF app] obtain ts where
    ts: "parseTokens ops (flagSplitMultiValues g val) = Inr ts"
    and v: "(case sl of None \<Rightarrow> [] | Some x \<Rightarrow> elems x) =
            (case slice ?i1 of None \<Rightarrow> [] | Some x \<Rightarrow> elems x) @ ts"
    by blast
  show ?thesis
    using ts v i' by (auto simp: SliceBase_Value_def)
qed

lemma SliceBase_Set_serialized:
  assumes "hasBeenSet i \<or> slice i \<noteq> None"
  shows "SliceBase_Set g ops i (slPfx g @ payload) =
         (None, i\<lparr>slice := unmarshalInto ops payload
                              (if hasBeenSet i then slice i else Some (Slice [])),
                   hasBeenSet := True\<rparr>)"
  using assms
  by (auto simp: SliceBase_Set_def HasPrefix_append removeFirst_append Let_def)

lemma SliceBase_Create_fresh:
  "hasBeenSet (SliceBase_Create d) = False" "SliceBase_Value (SliceBase_Create d) = d"
  "slice (SliceBase_Create d) \<noteq> None"
  by (simp_all add: SliceBase_Create_def SliceBase_Value_def)

lemma setOccurrences_plain:
  assumes "\<forall>v \<in> set occs. \<not> HasPrefix v (slPfx g)"
    and "setOccurrences g ops c occs = (None, c')"
  shows "\<exists>r. parseValues g ops occs = Inr r \<and>
           SliceBase_Value c' =
             (if occs = [] then SliceBase_Value c
              else if hasBeenSet c then SliceBase_Value c @ r else r)"
  using assms
proof (induction occs arbitrary: c)
  case Nil
  then show ?case by simp
next
  case (Cons v vs)
  from Cons.prems(2) obtain c1 where s1: "SliceBase_Set g ops c v = (None, c1)"
    and rest: "setOccurrences g ops c1 vs = (None, c')"
    by (auto split: prod.splits option.splits)
  from Cons.prems(1) have nv: "\<not> HasPrefix v (slPfx g)" and nvs: "\<forall>v \<in> set vs. \<not> HasPrefix v (slPfx g)"
    by simp_all
  from SliceBase_Set_plain [OF nv s1] obtain ts where
    ts: "parseTokens ops (flagSplitMultiValues g v) = Inr ts"
    and v1: "SliceBase_Value c1 = (if hasBeenSet c then SliceBase_Value c @ ts else ts)"
    and h1: "hasBeenSet c1"
    by blast
  from Cons.IH [OF nvs rest] obtain r where
    r: "parseValues g ops vs = Inr r"
    and v': "SliceBase_Value c' =
             (if vs = [] then SliceBase_Value c1
              else if hasBeenSet c1 then SliceBase_Value c1 @ r else r)"
    by blast
  have "vs = [] \<Longrightarrow> r = []" using r by simp
  then show ?case using ts r v1 v' h1 by auto
qed

lemma Serialize_Set_roundtrip_aux:
  assumes "jsonUnmarshal ops ''null'' = JNull"
    and "case slice c1 of
           Some (Slice xs) \<Rightarrow>
             (case jsonMarshal ops xs of None \<Rightarrow> False | Some js \<Rightarrow> jsonUnmarshal ops js = JArray xs)
         | _ \<Rightarrow> True"
    and "hasBeenSet c2 \<or> slice c2 \<noteq> None"
  shows "\<exists>c2'. SliceBase_Set g ops c2 (SliceBase_Serialize g ops c1) = (None, c2') \<and>
           SliceBase_Value c2' = SliceBase_Value c1 \<and>
           SliceBase_String ops c2' = SliceBase_String ops c1"
proof -
  obtain payload where ser: "SliceBase_Serialize g ops c1 = slPfx g @ payload"
    and dec: "unmarshalInto ops payload
                (if hasBeenSet c2 then slice c2 else Some (Slice [])) =
              (case slice c1 of Some (Slice xs) \<Rightarrow> Some (Slice xs) | _ \<Rightarrow> None)"
    using assms(1,2)
    by (auto simp: SliceBase_Serialize_def unmarshalInto_def
             split: option.splits slice.splits)
  let ?c2' = "c2\<lparr>slice := unmarshalInto ops payload
                              (if hasBeenSet c2 then slice c2 else Some (Slice [])),
                 hasBeenSet := True\<rparr>"
  have s: "SliceBase_Set g ops c2 (SliceBase_Serialize g ops c1) = (None, ?c2')"
    using SliceBase_Set_serialized [OF assms(3)] ser by simp
  have v: "SliceBase_Value ?c2' = SliceBase_Value c1"
    by (simp add: dec SliceBase_Value_def split: option.splits slice.splits)
  then have "SliceBase_String ops ?c2' = SliceBase_String ops c1"
    by (simp add: SliceBase_String_def)
  with s v show ?thesis by blast
qed

section \<open>The JSON codec of the integer instance\<close>


lemma digit_cases:
  "d < 10 \<Longrightarrow> d = 0 \<or> d = 1 \<or> d = 2 \<or> d = 3 \<or> d = 4 \<or> d = 5 \<or> d = 6 \<or> d = 7 \<or> d = 8 \<or> d = (9::nat)"
  by arith

lemma digitOf_digitChar: "d < 10 \<Longrightarrow> digitOf (digitChar d) = Some d"
  by (drule digit_cases) (auto simp: digitOf_def digitChar_def)

lemma digitChar_plain:
  "d < 10 \<Longrightarrow> digitChar d \<noteq> CHR '','' \<and> digitChar d \<noteq> CHR ''-'' \<and> digitChar d \<noteq> CHR ''+''"
  by (drule digit_cases) (auto simp: digitChar_def)

lemma showNat_nonempty: "showNat n \<noteq> []"
  by (subst showNat.simps) simp

lemma showNat_small: "n < 10 \<Longrightarrow> showNat n = [digitChar n]"
  by (subst showNat.simps) simp

lemma parseDigits_append:
  "parseDigits acc (xs @ ys) =
     (case parseDigits acc xs of None \<Rightarrow> None | Some a \<Rightarrow> parseDigits a ys)"
  by (induction xs arbitrary: acc) (auto split: option.splits)

lemma parseDigits_showNat:
  "parseDigits acc (showNat n) = Some (acc * 10 ^ length (showNat n) + n)"
proof (induction n arbitrary: acc rule: showNat.induct)
  case (1 n)
  show ?case
  proof (cases "n < 10")
    case True
    then show ?thesis by (simp add: showNat_small digitOf_digitChar)
  next
    case False
    have m: "n mod 10 < 10" by simp
    have s: "showNat n = showNat (n div 10) @ [digitChar (n mod 10)]"
      using False by (subst showNat.simps) simp
    show ?thesis
      using "1.IH" [OF False, of acc] False
      by (simp add: s parseDigits_append digitOf_digitChar [OF m] algebra_simps)
  qed
qed

lemma showNat_chars:
  "c \<in> set (showNat n) \<Longrightarrow> c \<noteq> CHR '','' \<and> c \<noteq> CHR ''-'' \<and> c \<noteq> CHR ''+''"
proof (induction n rule: showNat.induct)
  case (1 n)
  show ?case
  proof (cases "n < 10")
    case True
    with "1.prems" show ?thesis using digitChar_plain [of n] by (simp add: showNat_small)
  next
    case False
    have m: "n mod 10 < 10" by simp
    have s: "showNat n = showNat (n div 10) @ [digitChar (n mod 10)]"
      using False by (subst showNat.simps) simp
    from "1.prems" s have "c \<in> set (showNat (n div 10)) \<or> c = digitChar (n mod 10)" by auto
    then show ?thesis
    proof
      assume "c \<in> set (showNat (n div 10))"
      then show ?thesis by (rule "1.IH" [OF False])
    next
      assume "c = digitChar (n mod 10)"
      then show ?thesis using digitChar_plain [OF m] by simp
    qed
  qed
qed

lemma parseDecimal_showInt: "inInt64 i \<Longrightarrow> parseDecimal (showInt i) = Inr i"
proof (cases "i < 0")
  case True
  assume r: "inInt64 i"
  have "parseDigits 0 (showNat (nat (- i))) = Some (nat (- i))"
    by (simp add: parseDigits_showNat)
  then show ?thesis using True r
    by (simp add: parseDecimal_def showInt_def showNat_nonempty)
next
  case False
  assume r: "inInt64 i"
  obtain c cs where s: "showNat (nat i) = c # cs"
    using showNat_nonempty [of "nat i"] by (cases "showNat (nat i)") auto
  have c: "c \<noteq> CHR ''-'' \<and> c \<noteq> CHR ''+''"
    using showNat_chars [of c "nat i"] s by simp
  have "parseDigits 0 (c # cs) = Some (nat i)"
    using parseDigits_showNat [of 0 "nat i"] s by simp
  then show ?thesis using False r c s
    by (simp add: parseDecimal_def showInt_def del: parseDigits.simps)
qed

lemma showInt_nonempty: "showInt i \<noteq> []"
  by (simp add: showInt_def showNat_nonempty)

lemma showInt_no_plus: "hd (showInt i) \<noteq> CHR ''+''"
proof (cases "i < 0")
  case True
  then show ?thesis by (simp add: showInt_def)
next
  case False
  obtain c cs where s: "showNat (nat i) = c # cs"
    using showNat_nonempty [of "nat i"] by (cases "showNat (nat i)") auto
  then show ?thesis using False showNat_chars [of c "nat i"]
    by (simp add: showInt_def)
qed

lemma showInt_no_comma: "CHR '','' \<notin> set (showInt i)"
  using showNat_chars by (auto simp: showInt_def)

lemma jsonInt_showInt: "inInt64 i \<Longrightarrow> jsonInt (showInt i) = Some i"
  by (simp add: jsonInt_def showInt_nonempty showInt_no_plus parseDecimal_showInt)

lemma splitAcc_no_sep:
  "CHR '','' \<notin> set s \<Longrightarrow> splitAcc '','' cur s = [cur @ s]"
  by (induction s arbitrary: cur) auto

lemma splitAcc_sep:
  "CHR '','' \<notin> set s \<Longrightarrow>
     splitAcc '','' cur (s @ '','' @ rest) = (cur @ s) # splitAcc '','' [] rest"
  by (induction s arbitrary: cur) auto

lemma Split_Join:
  "toks \<noteq> [] \<Longrightarrow> \<forall>t \<in> set toks. CHR '','' \<notin> set t \<Longrightarrow>
     splitAcc '','' [] (Join toks '','') = toks"
proof (induction toks "'',''" rule: Join.induct)
  case 1
  then show ?case by simp
next
  case (2 x)
  then show ?case by (simp add: splitAcc_no_sep)
next
  case (3 x y ys)
  then show ?case using splitAcc_sep [of x "[]" "Join (y # ys) '',''"] by simp
qed

lemma Join_nonempty: "toks \<noteq> [] \<Longrightarrow> \<forall>t \<in> set toks. t \<noteq> [] \<Longrightarrow> Join toks sep \<noteq> []"
  by (induction toks sep rule: Join.induct) auto

lemma allSome_map: "\<forall>x \<in> set xs. f (g x) = Some x \<Longrightarrow> allSome (map f (map g xs)) = Some xs"
  by (induction xs) auto

lemma int64_json_roundtrip:
  assumes "\<forall>x \<in> set xs. inInt64 x"
  shows "\<exists>js. marshalInts xs = Some js \<and> unmarshalInts js = JArray xs"
proof -
  let ?inner = "Join (map showInt xs) '',''"
  let ?js = "''['' @ ?inner @ '']''"
  have inner: "butlast (tl ?js) = ?inner" by (simp add: butlast_append)
  have notnull: "?js \<noteq> ''null''" by simp
  have shape: "length ?js \<ge> 2 \<and> hd ?js = CHR ''['' \<and> last ?js = CHR '']''" by simp
  have dec: "(if ?inner = [] then JArray []
              else case allSome (map jsonInt (Split ?inner '','')) of
                     None \<Rightarrow> JInvalid | Some ys \<Rightarrow> JArray ys) = JArray xs"
  proof (cases "xs = []")
    case True
    then show ?thesis by simp
  next
    case False
    have ne: "?inner \<noteq> []"
      using False by (intro Join_nonempty) (auto simp: showInt_nonempty)
    have sp: "Split ?inner '','' = map showInt xs"
      using False Split_Join [of "map showInt xs"] by (auto simp: Split_def showInt_no_comma)
    have "allSome (map jsonInt (map showInt xs)) = Some xs"
      using assms by (intro allSome_map) (auto simp: jsonInt_showInt)
    then show ?thesis using ne sp by simp
  qed
  have "unmarshalInts ?js = JArray xs"
    unfolding unmarshalInts_def Let_def inner using notnull shape dec
    by (simp only: if_False if_True simp_thms)
  then show ?thesis by (simp add: marshalInts_def)
qed

text \<open>
  For slices of 64-bit integers the codec reads back what it writes, so the round trip
  through \<open>Serialize\<close> and \<open>Set\<close> holds for every content.
\<close>

lemma int64_Serialize_Set_roundtrip:
  assumes "\<forall>x \<in> set (SliceBase_Value c1). inInt64 x"
    and "hasBeenSet c2 \<or> slice c2 \<noteq> None"
  shows "\<exists>c2'. SliceBase_Set g int64Ops c2 (SliceBase_Serialize g int64Ops c1) = (None, c2') \<and>
           SliceBase_Value c2' = SliceBase_Value c1 \<and>
           SliceBase_String int64Ops c2' = SliceBase_String int64Ops c1"
proof (rule Serialize_Set_roundtrip_aux [OF _ _ assms(2)])
  show "jsonUnmarshal int64Ops ''null'' = JNull"
    by (simp add: int64Ops_def unmarshalInts_def)
  show "case slice c1 of
          Some (Slice xs) \<Rightarrow>
            (case jsonMarshal int64Ops xs of None \<Rightarrow> False
             | Some js \<Rightarrow> jsonUnmarshal int64Ops js = JArray xs)
        | _ \<Rightarrow> True"
  proof (cases "slice c1")
    case None
    then show ?thesis by simp
  next
    case (Some sl)
    show ?thesis
    proof (cases sl)
      case NilSlice
      with Some show ?thesis by simp
    next
      case (Slice xs)
      with Some assms(1) have "\<forall>x \<in> set xs. inInt64 x" by (simp add: SliceBase_Value_def)
      from int64_json_roundtrip [OF this] Some Slice show ?thesis
        by (auto simp: int64Ops_def)
    qed
  qed
qed

section \<open>The collection cell: claims\<close>

text \<open>
  C2. A \<open>Set\<close> of an ordinary raw value (one that does not carry the serialization
  prefix) that succeeds leaves in the cell: the elements parsed from the value alone
  when it is the first \<open>Set\<close> on the cell (\<open>hasBeenSet\<close> is false, as it is in every cell
  that \<open>Create\<close> or \<open>NewSliceBase\<close> builds, whatever its default), so the default is
  discarded entirely; the previous content followed by the parsed elements on every later
  \<open>Set\<close>. After it \<open>hasBeenSet\<close> is true.
\<close>

theorem SliceBase_Set_replaces_default_then_appends:
  assumes "\<not> HasPrefix val (slPfx g)" and "SliceBase_Set g ops i val = (None, i')"
  shows "\<exists>ts. parseTokens ops (flagSplitMultiValues g val) = Inr ts \<and>
           SliceBase_Value i' = (if hasBeenSet i then SliceBase_Value i @ ts else ts) \<and>
           hasBeenSet i'"
  using assms by (rule SliceBase_Set_plain)

text \<open>
  The default \<open>[9, 2]\<close> with the occurrences \<open>10\<close> and \<open>20\<close> gives \<open>[10, 20]\<close>.
\<close>

theorem SliceBase_Set_default_example:
  "hasBeenSet (SliceBase_Create [9, 2 :: int]) = False \<and>
   SliceBase_Value (SliceBase_Create [9, 2 :: int]) = [9, 2] \<and>
   SliceBase_Value (snd (SliceBase_Set testGlobals int64Ops (SliceBase_Create [9, 2]) ''10'')) = [10] \<and>
   SliceBase_Value
     (snd (SliceBase_Set testGlobals int64Ops
        (snd (SliceBase_Set testGlobals int64Ops (SliceBase_Create [9, 2]) ''10'')) ''20'')) = [10, 20]"
proof -
  let ?c0 = "SliceBase_Create [9, 2 :: int]"
  let ?c1 = "snd (SliceBase_Set testGlobals int64Ops ?c0 ''10'')"
  let ?c2 = "snd (SliceBase_Set testGlobals int64Ops ?c1 ''20'')"
  have n1: "\<not> HasPrefix ''10'' (slPfx testGlobals)" and n2: "\<not> HasPrefix ''20'' (slPfx testGlobals)"
    by code_simp+
  have s1: "SliceBase_Set testGlobals int64Ops ?c0 ''10'' = (None, ?c1)"
    and s2: "SliceBase_Set testGlobals int64Ops ?c1 ''20'' = (None, ?c2)"
    by code_simp+
  have p1: "parseTokens int64Ops (flagSplitMultiValues testGlobals ''10'') = Inr [10]"
    and p2: "parseTokens int64Ops (flagSplitMultiValues testGlobals ''20'') = Inr [20]"
    by code_simp+
  have f0: "hasBeenSet ?c0 = False" and v0: "SliceBase_Value ?c0 = [9, 2]"
    by (simp_all add: SliceBase_Create_def SliceBase_Value_def)
  from SliceBase_Set_replaces_default_then_appends [OF n1 s1] p1 f0
  have v1: "SliceBase_Value ?c1 = [10]" and h1: "hasBeenSet ?c1" by auto
  from SliceBase_Set_replaces_default_then_appends [OF n2 s2] p2 h1 v1
  have v2: "SliceBase_Value ?c2 = [10, 20]" by auto
  show ?thesis using f0 v0 v1 v2 by simp
qed


text \<open>
  C9. Whatever the separator and whether or not splitting is disabled, \<open>Set\<close> on a raw
  value that begins with the serialization prefix returns no error, never splits the
  value, and leaves in the cell what \<open>json.Unmarshal\<close> makes of the rest of the value;
  when the rest is a JSON array, the cell holds exactly the decoded elements, whatever
  it held before. Only a value without the prefix is subject to the policy: it is one
  token when splitting is disabled and is split on the separator otherwise. (The cell
  is one that has a slice pointer or was set before, as every cell built by \<open>Create\<close> or
  \<open>NewSliceBase\<close> is.)
\<close>

theorem SliceBase_Set_serialized_whatever_separator:
  assumes "hasBeenSet i \<or> slice i \<noteq> None"
  shows "SliceBase_Set (g\<lparr>defaultSliceFlagSeparator := sep, disableSliceFlagSeparator := d\<rparr>) ops i
           (slPfx g @ payload) =
         (None, i\<lparr>slice := unmarshalInto ops payload
                              (if hasBeenSet i then slice i else Some (Slice [])),
                   hasBeenSet := True\<rparr>) \<and>
         (jsonUnmarshal ops payload = JArray xs \<longrightarrow>
            SliceBase_Value
              (snd (SliceBase_Set (g\<lparr>defaultSliceFlagSeparator := sep, disableSliceFlagSeparator := d\<rparr>)
                      ops i (slPfx g @ payload))) = xs) \<and>
         (\<not> HasPrefix val (slPfx g) \<longrightarrow>
            SliceBase_Set (g\<lparr>defaultSliceFlagSeparator := sep, disableSliceFlagSeparator := d\<rparr>) ops i val =
              (let i1 = (if hasBeenSet i then i else i\<lparr>slice := Some (Slice []), hasBeenSet := True\<rparr>);
                   r = appendTokens ops (hasValue i) (if d then [val] else Split val sep) (slice i1)
               in (fst r, i1\<lparr>slice := snd r\<rparr>)))"
proof -
  let ?g = "g\<lparr>defaultSliceFlagSeparator := sep, disableSliceFlagSeparator := d\<rparr>"
  have pfx: "slPfx ?g = slPfx g" by simp
  have a: "SliceBase_Set ?g ops i (slPfx g @ payload) =
         (None, i\<lparr>slice := unmarshalInto ops payload
                              (if hasBeenSet i then slice i else Some (Slice [])),
                   hasBeenSet := True\<rparr>)"
    using SliceBase_Set_serialized [OF assms, of ?g ops payload] by (simp only: pfx)
  have b: "jsonUnmarshal ops payload = JArray xs \<Longrightarrow>
      SliceBase_Value (snd (SliceBase_Set ?g ops i (slPfx g @ payload))) = xs"
    by (simp add: a SliceBase_Value_def unmarshalInto_def)
  have c: "\<not> HasPrefix val (slPfx g) \<Longrightarrow>
      SliceBase_Set ?g ops i val =
        (let i1 = (if hasBeenSet i then i else i\<lparr>slice := Some (Slice []), hasBeenSet := True\<rparr>);
             r = appendTokens ops (hasValue i) (if d then [val] else Split val sep) (slice i1)
         in (fst r, i1\<lparr>slice := snd r\<rparr>))"
    using assms
    by (auto simp: SliceBase_Set_def Let_def flagSplitMultiValues_def split: prod.splits)
  show ?thesis using a b c by blast
qed

text \<open>
  With splitting disabled, the serialized \<open>[1,2]\<close> replaces the default \<open>[9, 2]\<close>, and the
  plain value \<open>1,2\<close> is a single token, which is no integer.
\<close>

theorem SliceBase_Set_serialized_disabled_example:
  "SliceBase_Value
     (snd (SliceBase_Set (testGlobals\<lparr>defaultSliceFlagSeparator := '','', disableSliceFlagSeparator := True\<rparr>)
             int64Ops (SliceBase_Create [9, 2]) (slPfx testGlobals @ ''[1,2]''))) = [1, 2] \<and>
   SliceBase_Set (testGlobals\<lparr>defaultSliceFlagSeparator := '','', disableSliceFlagSeparator := True\<rparr>)
     int64Ops (SliceBase_Create [9, 2]) ''1,2'' =
   (Some (Err ''invalid syntax''), \<lparr>slice = Some (Slice []), hasBeenSet = True, hasValue = True\<rparr>)"
proof -
  let ?i = "SliceBase_Create [9, 2 :: int]"
  have h: "hasBeenSet ?i \<or> slice ?i \<noteq> None" by (simp add: SliceBase_Create_def)
  have dec: "jsonUnmarshal int64Ops ''[1,2]'' = JArray [1, 2]" by code_simp
  have single: "SliceBase_Set
       (testGlobals\<lparr>defaultSliceFlagSeparator := '','', disableSliceFlagSeparator := True\<rparr>)
       int64Ops ?i ''1,2'' =
     (Some (Err ''invalid syntax''), \<lparr>slice = Some (Slice []), hasBeenSet = True, hasValue = True\<rparr>)"
    by code_simp
  from SliceBase_Set_serialized_whatever_separator
         [OF h, where g = testGlobals and sep = "'',''" and d = True and ops = int64Ops
            and payload = "''[1,2]''" and xs = "[1, 2]" and val = "''1,2''"] dec
  have "SliceBase_Value
     (snd (SliceBase_Set (testGlobals\<lparr>defaultSliceFlagSeparator := '','', disableSliceFlagSeparator := True\<rparr>)
             int64Ops ?i (slPfx testGlobals @ ''[1,2]''))) = [1, 2]"
    by blast
  with single show ?thesis by blast
qed

text \<open>
  C7. Let the elements of \<open>c1\<close> be valid in the sense that the JSON codec of the standard
  library reads back what it writes for them (and reads \<open>null\<close> as null). Then \<open>Set\<close> on a
  second cell \<open>c2\<close> with \<open>c1.Serialize()\<close> succeeds and makes the content and the formatted
  content (\<open>String\<close>) of \<open>c2\<close> equal to those of \<open>c1\<close>, whatever \<open>c2\<close> held before and whether
  or not it had been set.
\<close>

theorem SliceBase_Serialize_Set_roundtrip:
  assumes "jsonUnmarshal ops ''null'' = JNull"
    and "case slice c1 of
           Some (Slice xs) \<Rightarrow>
             (case jsonMarshal ops xs of None \<Rightarrow> False | Some js \<Rightarrow> jsonUnmarshal ops js = JArray xs)
         | _ \<Rightarrow> True"
    and "hasBeenSet c2 \<or> slice c2 \<noteq> None"
  shows "\<exists>c2'. SliceBase_Set g ops c2 (SliceBase_Serialize g ops c1) = (None, c2') \<and>
           SliceBase_Value c2' = SliceBase_Value c1 \<and>
           SliceBase_String ops c2' = SliceBase_String ops c1"
  using assms by (rule Serialize_Set_roundtrip_aux)

text \<open>
  \<open>NewIntSlice(1, 2)\<close> serialized and set on \<open>NewIntSlice(3, 4)\<close>, as in
  \<open>TestIntSlice_Serialized_Set\<close>.
\<close>

theorem SliceBase_Serialize_Set_roundtrip_example:
  "SliceBase_Serialize testGlobals int64Ops (NewSliceBase [1, 2]) = slPfx testGlobals @ ''[1,2]'' \<and>
   (\<exists>c2'. SliceBase_Set testGlobals int64Ops (NewSliceBase [3, 4])
            (SliceBase_Serialize testGlobals int64Ops (NewSliceBase [1, 2])) = (None, c2') \<and>
          SliceBase_Value c2' = [1, 2] \<and>
          SliceBase_String int64Ops c2' = ''[]int64{1, 2}'')"
proof -
  let ?c1 = "NewSliceBase [1, 2 :: int]" and ?c2 = "NewSliceBase [3, 4 :: int]"
  have h1: "jsonUnmarshal int64Ops ''null'' = JNull" by code_simp
  have h2: "case slice ?c1 of
              Some (Slice xs) \<Rightarrow>
                (case jsonMarshal int64Ops xs of None \<Rightarrow> False
                 | Some js \<Rightarrow> jsonUnmarshal int64Ops js = JArray xs)
            | _ \<Rightarrow> True"
    by code_simp
  have h3: "hasBeenSet ?c2 \<or> slice ?c2 \<noteq> None" by (simp add: NewSliceBase_def)
  have ser: "SliceBase_Serialize testGlobals int64Ops ?c1 = slPfx testGlobals @ ''[1,2]''"
    by code_simp
  have v1: "SliceBase_Value ?c1 = [1, 2]" and s1: "SliceBase_String int64Ops ?c1 = ''[]int64{1, 2}''"
    by code_simp+
  from SliceBase_Serialize_Set_roundtrip [OF h1 h2 h3, of testGlobals]
  show ?thesis using ser v1 s1 by simp
qed

text \<open>
  C1. For a collection flag with sources and a declared default whose resolution
  succeeds (raw values without the serialization prefix): when the flag occurs on the
  command line, the resolved value is what the occurrences supply, and nothing of the
  sources or the default; when it does not occur and a source has a value, the resolved
  value is what that value supplies; the declared default is the resolved value only
  when the flag does not occur and no source has a value.
\<close>

theorem resolveSliceFlag_precedence:
  assumes "resolveSliceFlag g ops env f occs = Inr res"
    and "\<forall>v \<in> set occs. \<not> HasPrefix v (slPfx g)"
    and "case LookupWithSource env (sfSources f) of None \<Rightarrow> True | Some val \<Rightarrow> \<not> HasPrefix val (slPfx g)"
  shows "(occs \<noteq> [] \<longrightarrow> parseValues g ops occs = Inr res) \<and>
         (occs = [] \<longrightarrow>
            (case LookupWithSource env (sfSources f) of
               Some val \<Rightarrow> parseTokens ops (flagSplitMultiValues g val) = Inr res
             | None \<Rightarrow> res = sfValue f))"
proof -
  from assms(1) obtain cell fromSource cell' where
    ap: "SliceFlag_Apply g ops env f = Inr (cell, fromSource)"
    and oc: "setOccurrences g ops cell occs = (None, cell')"
    and res: "res = SliceBase_Value cell'"
    by (auto simp: resolveSliceFlag_def split: sum.splits prod.splits option.splits)
  from setOccurrences_plain [OF assms(2) oc] obtain r where
    r: "parseValues g ops occs = Inr r"
    and v: "SliceBase_Value cell' =
              (if occs = [] then SliceBase_Value cell
               else if hasBeenSet cell then SliceBase_Value cell @ r else r)"
    by blast
  have fresh: "hasBeenSet cell = False"
    using ap by (auto simp: SliceFlag_Apply_def SliceBase_Create_fresh split: option.splits prod.splits)
  have cmdline: "occs \<noteq> [] \<Longrightarrow> parseValues g ops occs = Inr res"
    using r v res fresh by simp
  have nocmd: "occs = [] \<Longrightarrow>
      (case LookupWithSource env (sfSources f) of
         Some val \<Rightarrow> parseTokens ops (flagSplitMultiValues g val) = Inr res
       | None \<Rightarrow> res = sfValue f)"
  proof (cases "LookupWithSource env (sfSources f)")
    case None
    assume "occs = []"
    then show ?thesis using None ap v res
      by (auto simp: SliceFlag_Apply_def SliceBase_Create_fresh)
  next
    case (Some val)
    assume e: "occs = []"
    from Some assms(3) have np: "\<not> HasPrefix val (slPfx g)" by simp
    from ap Some obtain tmpVal where
      st: "SliceBase_Set g ops (SliceBase_Create (sfValue f)) val = (None, tmpVal)"
      and c: "cell = SliceBase_Create (SliceBase_Value tmpVal)"
      by (auto simp: SliceFlag_Apply_def split: prod.splits option.splits)
    from SliceBase_Set_plain [OF np st] obtain ts where
      "parseTokens ops (flagSplitMultiValues g val) = Inr ts" and "SliceBase_Value tmpVal = ts"
      by (auto simp: SliceBase_Create_fresh)
    then show ?thesis using Some e v res c by (simp add: SliceBase_Create_fresh)
  qed
  show ?thesis using cmdline nocmd by blast
qed

text \<open>
  The environment \<open>APP_INTERVALS=20,30,40\<close> and the default \<open>[1, 2, 5]\<close>: with the
  occurrences \<open>10\<close> and \<open>20\<close> the value is \<open>[10, 20]\<close>, without occurrences it is
  \<open>[20, 30, 40]\<close>, and without the variable it is the default.
\<close>

theorem resolveSliceFlag_precedence_example:
  "resolveSliceFlag testGlobals int64Ops (Map.empty(''APP_INTERVALS'' \<mapsto> ''20,30,40''))
     \<lparr>sfValue = [1, 2, 5], sfSources = [''APP_INTERVALS'']\<rparr> [''10'', ''20''] = Inr [10, 20] \<and>
   parseValues testGlobals int64Ops [''10'', ''20''] = Inr [10, 20] \<and>
   resolveSliceFlag testGlobals int64Ops (Map.empty(''APP_INTERVALS'' \<mapsto> ''20,30,40''))
     \<lparr>sfValue = [1, 2, 5], sfSources = [''APP_INTERVALS'']\<rparr> [] = Inr [20, 30, 40] \<and>
   resolveSliceFlag testGlobals int64Ops Map.empty
     \<lparr>sfValue = [1, 2, 5], sfSources = [''APP_INTERVALS'']\<rparr> [] = Inr [1, 2, 5]"
proof -
  let ?env = "Map.empty(''APP_INTERVALS'' \<mapsto> ''20,30,40'')"
  let ?f = "\<lparr>sfValue = [1, 2, 5 :: int], sfSources = [''APP_INTERVALS'']\<rparr>"
  have r1: "resolveSliceFlag testGlobals int64Ops ?env ?f [''10'', ''20''] = Inr [10, 20]"
    by code_simp
  have r2: "resolveSliceFlag testGlobals int64Ops ?env ?f [] = Inr [20, 30, 40]"
    by code_simp
  have r3: "resolveSliceFlag testGlobals int64Ops Map.empty ?f [] = Inr [1, 2, 5]"
    by code_simp
  have o1: "\<forall>v \<in> set [''10'', ''20'']. \<not> HasPrefix v (slPfx testGlobals)"
    by code_simp
  have l1: "case LookupWithSource ?env (sfSources ?f) of None \<Rightarrow> True
            | Some val \<Rightarrow> \<not> HasPrefix val (slPfx testGlobals)"
    by code_simp
  from resolveSliceFlag_precedence [OF r1 o1 l1]
  have "parseValues testGlobals int64Ops [''10'', ''20''] = Inr [10, 20]" by simp
  with r1 r2 r3 show ?thesis by simp
qed

section \<open>Flag access and required flags: lemmas\<close>

lemma findFlagSet_None: "findFlagSet lineage name = None \<longleftrightarrow> \<not> flagKnown lineage name"
  by (induction lineage) (auto simp: flagKnown_def split: option.splits)

lemma onInvalidFlag_nearest:
  "onInvalidFlag lineage name =
     (case nearestHandler lineage of None \<Rightarrow> [] | Some h \<Rightarrow> [(Name h, name)])"
  by (induction lineage) (auto simp: nearestHandler_def)

lemma lookupFlagSet_unknown:
  "\<not> flagKnown lineage name \<Longrightarrow> lookupFlagSet lineage name = (None, onInvalidFlag lineage name)"
  using findFlagSet_None [of lineage name] by (simp add: lookupFlagSet_def)

lemma namesLoop_result:
  "namesLoop lineage keys (p, n, cs) =
     (p \<or> (\<exists>key \<in> set keys. fst (Command_IsSet lineage (TrimSpace key))),
      if keys = [] then n else last keys,
      cs @ concat (map (\<lambda>key. snd (Command_IsSet lineage (TrimSpace key))) keys))"
  by (induction keys arbitrary: p n cs) (auto split: prod.splits)

lemma namesLoop_flag:
  "fst (namesLoop lineage (flagNames f) (False, [], cs)) = (\<not> flagUnset lineage f)"
  "fst (snd (namesLoop lineage (flagNames f) (False, [], cs))) = reportedName f"
  by (simp_all add: namesLoop_result flagUnset_def reportedName_def)

lemma requiredLoop_missing:
  "fst (requiredLoop lineage fls (m, cs)) = m @ map reportedName (missingRequired lineage fls)"
proof (induction fls arbitrary: m cs)
  case Nil
  then show ?case by (simp add: missingRequired_def)
next
  case (Cons f fls)
  show ?case
  proof (cases "flagIsRequired f")
    case False
    then show ?thesis using Cons.IH by (simp add: missingRequired_def)
  next
    case True
    obtain p n cs' where nl: "namesLoop lineage (flagNames f) (False, [], cs) = (p, n, cs')"
      by (metis prod_cases3)
    from namesLoop_flag [of lineage f cs] nl
    have p: "p = (\<not> flagUnset lineage f)" and n: "n = reportedName f" by simp_all
    show ?thesis
      using True nl p n Cons.IH by (simp add: missingRequired_def)
  qed
qed

lemma checkRequiredFlags_missing:
  "fst (checkRequiredFlags (cmd # parents)) =
     (if missingRequired (cmd # parents) (Flags cmd) = [] then None
      else Some (RequiredFlagsErr (map reportedName (missingRequired (cmd # parents) (Flags cmd)))))"
proof -
  obtain m cs where r: "requiredLoop (cmd # parents) (Flags cmd) ([], []) = (m, cs)"
    by (cases "requiredLoop (cmd # parents) (Flags cmd) ([], [])")
  from requiredLoop_missing [of "cmd # parents" "Flags cmd" "[]" "[]"] r
  have "m = map reportedName (missingRequired (cmd # parents) (Flags cmd))" by simp
  then show ?thesis using r by (simp add: checkRequiredFlags_def)
qed

section \<open>Flag access and required flags: claims\<close>

text \<open>
  C5, as stated, fails: a required flag whose last name is empty is skipped by the guard
  \<open>flagName != ""\<close>. Here the only flag of the command is required, is registered under its
  name, the empty string, and is unset; the check returns no error.
\<close>

theorem checkRequiredFlags_nameless_counterexample:
  "flagIsRequired (requiredFlag ['''']) \<and>
   flagUnset [simpleCommand ''app'' [] [] [requiredFlag ['''']]] (requiredFlag ['''']) \<and>
   fst (checkRequiredFlags [simpleCommand ''app'' [] [] [requiredFlag ['''']]]) = None"
  by code_simp

text \<open>
  C5, amended. The required-flag check returns an error if and only if at least one
  required flag that is reported under a non-empty name (the last of its names) is
  unset, and that single error lists the reported names of all such flags of the
  command, in the order of their declaration.
\<close>

theorem checkRequiredFlags_aggregates_all_missing:
  "(fst (checkRequiredFlags (cmd # parents)) \<noteq> None) =
     (\<exists>f \<in> set (Flags cmd).
        flagIsRequired f \<and> flagUnset (cmd # parents) f \<and> reportedName f \<noteq> []) \<and>
   fst (checkRequiredFlags (cmd # parents)) =
     (if missingRequired (cmd # parents) (Flags cmd) = [] then None
      else Some (RequiredFlagsErr (map reportedName (missingRequired (cmd # parents) (Flags cmd)))))"
proof -
  have "(missingRequired (cmd # parents) (Flags cmd) \<noteq> []) =
        (\<exists>f \<in> set (Flags cmd).
           flagIsRequired f \<and> flagUnset (cmd # parents) f \<and> reportedName f \<noteq> [])"
    by (auto simp: missingRequired_def filter_empty_conv)
  then show ?thesis
    using checkRequiredFlags_missing [of cmd parents] by auto
qed

text \<open>
  Three required flags of which the first and the last are unset: one error with both
  names, \<open>a\<close> (the alias, the last name of the first flag) and \<open>gamma\<close>.
\<close>

theorem checkRequiredFlags_aggregates_example:
  "fst (checkRequiredFlags
     [simpleCommand ''app'' [] []
        [requiredFlag [''alpha'', ''a''], (requiredFlag [''beta''])\<lparr>flagIsSet := True\<rparr>,
         requiredFlag [''gamma'']]]) =
   Some (RequiredFlagsErr [''a'', ''gamma''])"
proof -
  let ?cmd = "simpleCommand ''app'' [] []
        [requiredFlag [''alpha'', ''a''], (requiredFlag [''beta''])\<lparr>flagIsSet := True\<rparr>,
         requiredFlag [''gamma'']]"
  have m: "map reportedName (missingRequired [?cmd] (Flags ?cmd)) = [''a'', ''gamma'']"
    by code_simp
  from checkRequiredFlags_aggregates_all_missing [of ?cmd "[]"] m
  show ?thesis by (auto split: if_splits)
qed

text \<open>
  C8, as stated, fails for \<open>Set\<close>: on a name unknown to the lineage it returns the
  error \<open>no such flag\<close>, with or without a handler. Here no handler is configured.
\<close>

theorem Command_Set_unknown_counterexample:
  "\<not> flagKnown [simpleCommand ''app'' [] [] []] ''nope'' \<and>
   nearestHandler [simpleCommand ''app'' [] [] []] = None \<and>
   Command_Set (\<lambda>fs name val. None) [simpleCommand ''app'' [] [] []] ''nope'' ''1'' =
     (Some (Err ''no such flag -nope''), [])"
  by code_simp

text \<open>
  C8, amended. For a flag name unknown to the command and its whole lineage, the
  nearest configured \<open>InvalidFlagAccessHandler\<close> is called, once, with the name; when no
  handler is configured nothing is called. \<open>Value\<close> returns nil and the typed getters
  return the zero of their type (\<open>Uint64\<close> returns 0, \<open>IntSlice\<close> and \<open>UintSlice\<close> return nil).
  \<open>Set\<close> makes the same handler call and returns the error \<open>no such flag\<close>.
\<close>

theorem unknown_flag_access:
  assumes "\<not> flagKnown lineage name"
  shows "Command_Value lineage name = (None, onInvalidFlag lineage name) \<and>
         Command_Uint64 lineage name = (0, onInvalidFlag lineage name) \<and>
         Command_IntSlice lineage name = (None, onInvalidFlag lineage name) \<and>
         Command_UintSlice lineage name = (None, onInvalidFlag lineage name) \<and>
         Command_Set fsSet lineage name val =
           (Some (Err (''no such flag -'' @ name)), onInvalidFlag lineage name) \<and>
         onInvalidFlag lineage name =
           (case nearestHandler lineage of None \<Rightarrow> [] | Some h \<Rightarrow> [(Name h, name)])"
  using lookupFlagSet_unknown [OF assms] onInvalidFlag_nearest [of lineage name]
  by (simp add: Command_Value_def Command_Uint64_def Command_IntSlice_def
        Command_UintSlice_def Command_Set_def)

text \<open>
  A sub-command without a handler under a root that has one: the call goes to the
  root's handler; \<open>Value\<close> returns nil and \<open>Uint64\<close> returns 0.
\<close>

theorem unknown_flag_access_example:
  "Command_Value
     [simpleCommand ''sub'' [] [] [plainFlag [''foo'']],
      Command ''app'' [] [] [] [] [] None None None True False False None
        (Some (snd (newFlagSet [])))] ''nope'' = (None, [(''app'', ''nope'')]) \<and>
   Command_Uint64
     [simpleCommand ''sub'' [] [] [plainFlag [''foo'']],
      Command ''app'' [] [] [] [] [] None None None True False False None
        (Some (snd (newFlagSet [])))] ''nope'' = (0, [(''app'', ''nope'')])"
proof -
  let ?l = "[simpleCommand ''sub'' [] [] [plainFlag [''foo'']],
      Command ''app'' [] [] [] [] [] None None None True False False None
        (Some (snd (newFlagSet [])))]"
  have u: "\<not> flagKnown ?l ''nope''" by code_simp
  have h: "(case nearestHandler ?l of None \<Rightarrow> [] | Some h \<Rightarrow> [(Name h, ''nope'')]) = [(''app'', ''nope'')]"
    by code_simp
  from unknown_flag_access [OF u, of "\<lambda>fs name val. None" "''1''"] h
  show ?thesis by simp
qed

section \<open>Persistent flags: lemmas\<close>

lemma registerNames_names:
  "registerNames v ns fs = (None, fs') \<Longrightarrow>
     set (map fst (formal fs')) = set (map fst (formal fs)) \<union> set ns"
proof (induction ns arbitrary: fs)
  case Nil
  then show ?case by simp
next
  case (Cons n ns)
  from Cons.prems obtain fs1 where v: "FlagSet_Var fs v n = (None, fs1)"
    and r: "registerNames v ns fs1 = (None, fs')"
    by (auto split: prod.splits option.splits)
  from v have "set (map fst (formal fs1)) = insert n (set (map fst (formal fs)))"
    by (auto simp: FlagSet_Var_def split: if_splits)
  with Cons.IH [OF r] show ?case by auto
qed

lemma Flag_Apply_names:
  "Flag_Apply fl fs = (None, fs') \<Longrightarrow>
     set (map fst (formal fs')) = set (map fst (formal fs)) \<union> set (flagNames fl)"
proof -
  assume a: "Flag_Apply fl fs = (None, fs')"
  then have r: "registerNames (flagValue fl) (flagNames fl) fs = (None, fs')"
    by (auto simp: Flag_Apply_def split: option.splits)
  from registerNames_names [OF r] show ?thesis .
qed

lemma applyAll_names:
  "applyAll fls fs = (None, fs') \<Longrightarrow>
     set (map fst (formal fs')) = set (map fst (formal fs)) \<union> flagNamesOf fls"
proof (induction fls arbitrary: fs)
  case Nil
  then show ?case by (simp add: flagNamesOf_def)
next
  case (Cons f fls)
  from Cons.prems obtain fs1 where a: "Flag_Apply f fs = (None, fs1)"
    and r: "applyAll fls fs1 = (None, fs')"
    by (auto split: prod.splits option.splits)
  from Flag_Apply_names [OF a] Cons.IH [OF r] show ?case
    by (auto simp: flagNamesOf_def)
qed

lemma newFlagSet_names:
  "newFlagSet fls = (None, v) \<Longrightarrow> set (map fst (formal v)) = flagNamesOf fls"
proof -
  assume "newFlagSet fls = (None, v)"
  then have r: "applyAll fls NewFlagSet = (None, v)" by (simp add: newFlagSet_def)
  from applyAll_names [OF r] show ?thesis by (simp add: NewFlagSet_def)
qed

lemma nameKnown_iff:
  "nameKnown fs ns \<longleftrightarrow> set ns \<inter> set (map fst (formal fs)) \<noteq> {}"
  by (auto simp: nameKnown_def)

lemma flagNamesOf_simps:
  "flagNamesOf [] = {}"
  "flagNamesOf (f # fls) = set (flagNames f) \<union> flagNamesOf fls"
  "flagNamesOf (xs @ ys) = flagNamesOf xs \<union> flagNamesOf ys"
  by (auto simp: flagNamesOf_def)

lemma persistentOf_inherited:
  "persistentOf fls (fs, ap) = (None, fs', ap') \<Longrightarrow>
     ap' = ap @ inherited (set (map fst (formal fs))) fls \<and>
     set (map fst (formal fs')) =
       set (map fst (formal fs)) \<union> flagNamesOf (inherited (set (map fst (formal fs))) fls)"
proof (induction fls arbitrary: fs ap)
  case Nil
  then show ?case by (simp add: flagNamesOf_simps)
next
  case (Cons fl fls)
  show ?case
  proof (cases "flagIsPersistent fl \<and> \<not> nameKnown fs (flagNames fl)")
    case False
    with Cons.prems have "persistentOf fls (fs, ap) = (None, fs', ap')"
      by (cases "flagIsPersistent fl") auto
    from Cons.IH [OF this] False show ?thesis
      by (auto simp: nameKnown_iff)
  next
    case True
    with Cons.prems obtain fs1 where a: "Flag_Apply fl fs = (None, fs1)"
      and r: "persistentOf fls (fs1, ap @ [fl]) = (None, fs', ap')"
      by (auto split: prod.splits option.splits)
    have n1: "set (map fst (formal fs1)) = set (map fst (formal fs)) \<union> set (flagNames fl)"
      by (rule Flag_Apply_names [OF a])
    from True have dis: "set (flagNames fl) \<inter> set (map fst (formal fs)) = {}"
      by (simp add: nameKnown_iff)
    from Cons.IH [OF r] n1 True dis show ?thesis
      by (simp add: flagNamesOf_simps Un_assoc)
  qed
qed

lemma inherited_append:
  "inherited seen (xs @ ys) =
     inherited seen xs @ inherited (seen \<union> flagNamesOf (inherited seen xs)) ys"
  by (induction xs arbitrary: seen) (auto simp: flagNamesOf_simps Un_assoc)

lemma walkAncestors_inherited:
  "walkAncestors ps (fs, ap) = (None, fs', ap') \<Longrightarrow>
     ap' = ap @ inherited (set (map fst (formal fs))) (concat (map Flags ps)) \<and>
     set (map fst (formal fs')) =
       set (map fst (formal fs)) \<union>
       flagNamesOf (inherited (set (map fst (formal fs))) (concat (map Flags ps)))"
proof (induction ps arbitrary: fs ap)
  case Nil
  then show ?case by (simp add: flagNamesOf_simps)
next
  case (Cons p ps)
  from Cons.prems obtain fs1 ap1 where a: "persistentOf (Flags p) (fs, ap) = (None, fs1, ap1)"
    and r: "walkAncestors ps (fs1, ap1) = (None, fs', ap')"
    by (auto split: prod.splits option.splits)
  from persistentOf_inherited [OF a] Cons.IH [OF r] show ?case
    by (simp add: inherited_append flagNamesOf_simps Un_assoc)
qed

lemma inherited_sound:
  "fl \<in> set (inherited seen fls) \<Longrightarrow>
     fl \<in> set fls \<and> flagIsPersistent fl \<and> set (flagNames fl) \<inter> seen = {}"
  by (induction fls arbitrary: seen) (auto split: if_splits)

lemma inherited_complete:
  "fl \<in> set fls \<Longrightarrow> flagIsPersistent fl \<Longrightarrow> fl \<notin> set (inherited seen fls) \<Longrightarrow>
     set (flagNames fl) \<inter> (seen \<union> flagNamesOf (inherited seen fls)) \<noteq> {}"
proof (induction fls arbitrary: seen)
  case Nil
  then show ?case by simp
next
  case (Cons f fls)
  show ?case
  proof (cases "flagIsPersistent f \<and> set (flagNames f) \<inter> seen = {}")
    case True
    with Cons.prems have "fl \<noteq> f" and "fl \<in> set fls"
      and "fl \<notin> set (inherited (seen \<union> set (flagNames f)) fls)"
      by auto
    from Cons.IH [OF this(2) Cons.prems(2) this(3)] True show ?thesis
      by (auto simp: flagNamesOf_simps)
  next
    case False
    show ?thesis
    proof (cases "fl = f")
      case True
      with False Cons.prems(2) show ?thesis by auto
    next
      case neq: False
      with Cons.prems False have "fl \<in> set fls" and "fl \<notin> set (inherited seen fls)" by auto
      from Cons.IH [OF this(1) Cons.prems(2) this(2)] False show ?thesis by auto
    qed
  qed
qed

lemma parseFlags_applied:
  assumes "\<not> SkipFlagParsing cmd" and "newFlagSet (allFlags cmd) = (None, v)"
    and "walkAncestors parents (v, appliedFlags @ allFlags cmd) = (None, fs, applied)"
  shows "snd (snd (parseFlags lib cmd parents appliedFlags args)) = applied"
  using assms by (simp add: parseFlags_def Let_def split: prod.splits option.splits)

section \<open>Persistent flags: claim\<close>

text \<open>
  C3. When flags are parsed (\<open>SkipFlagParsing\<close> is off) and every \<open>Apply\<close> succeeds, the
  flags applied into the command's flag set by \<open>parseFlags\<close> are its own declared flags
  followed by every ancestor flag, from the nearest ancestor to the root, that is
  marked persistent and none of whose names is already present in the command's flag
  set; the names registered in the flag set are exactly the names of these flags. An
  ancestor flag that shares a name with a flag declared by the command itself is
  shadowed: it is not applied. A persistent ancestor flag that is not applied has a name
  that is present in the flag set.
\<close>

theorem parseFlags_effective_flag_set:
  assumes "\<not> SkipFlagParsing cmd"
    and "newFlagSet (allFlags cmd) = (None, v)"
    and "walkAncestors parents (v, appliedFlags @ allFlags cmd) = (None, fs, applied)"
  shows "snd (snd (parseFlags lib cmd parents appliedFlags args)) =
           appliedFlags @ effectiveFlags cmd parents \<and>
         applied = appliedFlags @ effectiveFlags cmd parents \<and>
         set (map fst (formal fs)) = flagNamesOf (effectiveFlags cmd parents) \<and>
         (\<forall>fl \<in> set (concat (map Flags parents)).
            set (flagNames fl) \<inter> flagNamesOf (allFlags cmd) \<noteq> {} \<longrightarrow>
            fl \<notin> set (inherited (flagNamesOf (allFlags cmd)) (concat (map Flags parents)))) \<and>
         (\<forall>fl \<in> set (concat (map Flags parents)).
            flagIsPersistent fl \<and>
            fl \<notin> set (inherited (flagNamesOf (allFlags cmd)) (concat (map Flags parents))) \<longrightarrow>
            set (flagNames fl) \<inter> flagNamesOf (effectiveFlags cmd parents) \<noteq> {})"
proof -
  have nv: "set (map fst (formal v)) = flagNamesOf (allFlags cmd)"
    by (rule newFlagSet_names [OF assms(2)])
  from walkAncestors_inherited [OF assms(3)] nv
  have ap: "applied = appliedFlags @ effectiveFlags cmd parents"
    and nm: "set (map fst (formal fs)) = flagNamesOf (effectiveFlags cmd parents)"
    by (simp_all add: effectiveFlags_def flagNamesOf_simps)
  have pf: "snd (snd (parseFlags lib cmd parents appliedFlags args)) =
              appliedFlags @ effectiveFlags cmd parents"
    using parseFlags_applied [OF assms] ap by simp
  have shadow: "\<forall>fl \<in> set (concat (map Flags parents)).
            set (flagNames fl) \<inter> flagNamesOf (allFlags cmd) \<noteq> {} \<longrightarrow>
            fl \<notin> set (inherited (flagNamesOf (allFlags cmd)) (concat (map Flags parents)))"
    using inherited_sound by blast
  have compl: "\<forall>fl \<in> set (concat (map Flags parents)).
            flagIsPersistent fl \<and>
            fl \<notin> set (inherited (flagNamesOf (allFlags cmd)) (concat (map Flags parents))) \<longrightarrow>
            set (flagNames fl) \<inter> flagNamesOf (effectiveFlags cmd parents) \<noteq> {}"
    using inherited_complete
    by (simp add: effectiveFlags_def flagNamesOf_simps del: set_concat)
  show ?thesis using pf ap nm shadow compl by blast
qed

text \<open>
  A command that declares \<open>config\<close> under a root with the persistent flags \<open>verbose\<close>
  (alias \<open>v\<close>) and \<open>config\<close> and the flag \<open>local\<close>, which is not persistent: the applied
  flags are the command's \<open>config\<close> and the root's \<open>verbose\<close>.
\<close>

theorem parseFlags_effective_flag_set_example:
  "snd (snd (parseFlags positionalLib
     (simpleCommand ''sub'' [] [] [plainFlag [''config'']])
     [simpleCommand ''app'' [] []
        [persistentFlag [''verbose'', ''v''], persistentFlag [''config''], plainFlag [''local'']]]
     [] [''sub'', ''x''])) =
   [plainFlag [''config''], persistentFlag [''verbose'', ''v'']]"
proof -
  let ?cmd = "simpleCommand ''sub'' [] [] [plainFlag [''config'']]"
  let ?ps = "[simpleCommand ''app'' [] []
        [persistentFlag [''verbose'', ''v''], persistentFlag [''config''], plainFlag [''local'']]]"
  let ?v = "snd (newFlagSet (allFlags ?cmd))"
  let ?w = "walkAncestors ?ps (?v, [] @ allFlags ?cmd)"
  have s: "\<not> SkipFlagParsing ?cmd" by code_simp
  have n: "newFlagSet (allFlags ?cmd) = (None, ?v)" by code_simp
  have w: "walkAncestors ?ps (?v, [] @ allFlags ?cmd) = (None, fst (snd ?w), snd (snd ?w))"
    by code_simp
  have e: "effectiveFlags ?cmd ?ps = [plainFlag [''config''], persistentFlag [''verbose'', ''v'']]"
    by code_simp
  from parseFlags_effective_flag_set [OF s n w, of positionalLib "[''sub'', ''x'']"] e
  show ?thesis by simp
qed

section \<open>Command resolution: claims\<close>

text \<open>
  C10 fails on the code. The command \<open>app\<close> names the default command \<open>missing\<close> and has
  the single child \<open>help\<close>; the first positional argument \<open>foo\<close> matches no child. The
  lookup of the default command yields nil and \<open>Run\<close> reads \<open>dc.Commands\<close> through it: the
  resolution panics, and so does the run.
\<close>

theorem resolveSubcommand_missing_default_panics:
  "Command_Command (simpleCommand ''app'' ''missing'' [simpleCommand ''help'' [] [] []] []) ''missing'' = None \<and>
   resolveSubcommand None
     [simpleCommand ''app'' ''missing'' [simpleCommand ''help'' [] [] []] []] [''foo''] =
     Inl (Panic ''nil pointer dereference'') \<and>
   Run quietEnv [simpleCommand ''app'' ''missing'' [simpleCommand ''help'' [] [] []] []] [''foo''] None =
     ([EvFlagActions], Some (Panic ''nil pointer dereference''))"
  by code_simp




section \<open>Hooks: claim\<close>

lemma Run_leaf:
  assumes "\<not> completions env" and "\<not> helpWanted env" and "\<not> (parents = [] \<and> versionWanted env)"
    and "\<not> EnableShellCompletion cmd" and "After cmd = Some a"
  shows "Run env (cmd # parents) args None = runAfter (Some a) (runChecked env (cmd # parents) args)"
  using assms by (auto simp: Run_def)

lemma runChecked_before_fails:
  assumes "\<not> EnableShellCompletion cmd"
    and "checkRequiredFlags (cmd # parents) = (None, calls)" and "groupErr env = None"
    and "Before cmd = Some (Some e)"
  shows "runChecked env (cmd # parents) args =
           (map EvInvalidFlag calls @ [EvBefore, EvHandleExit (Some e)], Some e)"
  using assms by (simp add: runChecked_def handleExitCoder_def)

lemma runChecked_action_fails:
  assumes "\<not> EnableShellCompletion cmd"
    and "checkRequiredFlags (cmd # parents) = (None, calls)" and "groupErr env = None"
    and "Before cmd = None \<or> Before cmd = Some None"
    and "flagActionsErr env = None"
    and "resolveSubcommand (suggestFunc env) (cmd # parents) args = Inr None"
    and "Action cmd = Some (Some e)"
  shows "runChecked env (cmd # parents) args =
           (map EvInvalidFlag calls @ (if Before cmd = None then [] else [EvBefore]) @
              [EvFlagActions, EvAction, EvHandleExit (Some e)], Some e)"
  using assms by (auto simp: runChecked_def runDispatch_def handleExitCoder_def)

lemma runAfter_error:
  "\<not> isPanic e \<Longrightarrow>
   runAfter (Some a) (evs, Some e) =
     (evs @ (case a of None \<Rightarrow> [EvAfter] | Some e' \<Rightarrow> [EvAfter, EvHandleExit (Some e')]),
      case a of None \<Rightarrow> Some e | Some e' \<Rightarrow> Some (MultiError [e, e']))"
  by (cases e; cases a) (simp_all add: runAfter_def)

text \<open>
  C6, as stated, fails: the deferred function that calls \<open>After\<close> is registered before
  the required-flag check and before \<open>Before\<close> is called, so \<open>After\<close> runs when \<open>Before\<close>
  fails. Here a command without positional arguments has a \<open>Before\<close> that returns an
  error, and an \<open>After\<close> and an action that return none: the run calls \<open>Before\<close>, then
  \<open>After\<close>, and never the action.
\<close>

theorem After_runs_when_Before_fails_counterexample:
  "Run quietEnv [hookCommand (Some (Some (Err ''before''))) (Some None) (Some None)] [] None =
     ([EvBefore, EvHandleExit (Some (Err ''before'')), EvAfter], Some (Err ''before''))"
  by code_simp

text \<open>
  C6, amended. In a leaf dispatch of a command with an \<open>After\<close> hook (no completion, help
  or version request, required flags and groups in order): when the action returns an
  error, \<open>After\<close> runs after it, and the run returns the action's error, merged with the
  error of \<open>After\<close> if that fails too; when \<open>Before\<close> returns an error, the action does not
  run, \<open>After\<close> still runs, and the run returns the error of \<open>Before\<close>, merged with the
  error of \<open>After\<close> if that fails too.
\<close>

theorem After_runs_after_failed_action_and_failed_Before:
  assumes "\<not> completions env" and "\<not> helpWanted env" and "\<not> (parents = [] \<and> versionWanted env)"
    and "\<not> EnableShellCompletion cmd" and "After cmd = Some a"
    and "checkRequiredFlags (cmd # parents) = (None, calls)" and "groupErr env = None"
    and "\<not> isPanic e"
  shows "(Before cmd = Some (Some e) \<longrightarrow>
            Run env (cmd # parents) args None =
              (map EvInvalidFlag calls @ [EvBefore, EvHandleExit (Some e)] @
                 (case a of None \<Rightarrow> [EvAfter] | Some e' \<Rightarrow> [EvAfter, EvHandleExit (Some e')]),
               case a of None \<Rightarrow> Some e | Some e' \<Rightarrow> Some (MultiError [e, e'])) \<and>
            EvAction \<notin> set (fst (Run env (cmd # parents) args None))) \<and>
         ((Before cmd = None \<or> Before cmd = Some None) \<and> flagActionsErr env = None \<and>
          resolveSubcommand (suggestFunc env) (cmd # parents) args = Inr None \<and>
          Action cmd = Some (Some e) \<longrightarrow>
            Run env (cmd # parents) args None =
              (map EvInvalidFlag calls @ (if Before cmd = None then [] else [EvBefore]) @
                 [EvFlagActions, EvAction, EvHandleExit (Some e)] @
                 (case a of None \<Rightarrow> [EvAfter] | Some e' \<Rightarrow> [EvAfter, EvHandleExit (Some e')]),
               case a of None \<Rightarrow> Some e | Some e' \<Rightarrow> Some (MultiError [e, e'])))"
proof -
  note leaf = Run_leaf [OF assms(1-5), of args]
  have A: "Before cmd = Some (Some e) \<Longrightarrow>
            Run env (cmd # parents) args None =
              (map EvInvalidFlag calls @ [EvBefore, EvHandleExit (Some e)] @
                 (case a of None \<Rightarrow> [EvAfter] | Some e' \<Rightarrow> [EvAfter, EvHandleExit (Some e')]),
               case a of None \<Rightarrow> Some e | Some e' \<Rightarrow> Some (MultiError [e, e']))"
    using leaf runChecked_before_fails [OF assms(4,6,7), where e = e and args = args] runAfter_error [OF assms(8)]
    by simp
  have A': "Before cmd = Some (Some e) \<Longrightarrow> EvAction \<notin> set (fst (Run env (cmd # parents) args None))"
    using A by (auto split: option.splits)
  have B: "(Before cmd = None \<or> Before cmd = Some None) \<Longrightarrow> flagActionsErr env = None \<Longrightarrow>
          resolveSubcommand (suggestFunc env) (cmd # parents) args = Inr None \<Longrightarrow>
          Action cmd = Some (Some e) \<Longrightarrow>
            Run env (cmd # parents) args None =
              (map EvInvalidFlag calls @ (if Before cmd = None then [] else [EvBefore]) @
                 [EvFlagActions, EvAction, EvHandleExit (Some e)] @
                 (case a of None \<Rightarrow> [EvAfter] | Some e' \<Rightarrow> [EvAfter, EvHandleExit (Some e')]),
               case a of None \<Rightarrow> Some e | Some e' \<Rightarrow> Some (MultiError [e, e']))"
    using leaf runChecked_action_fails [OF assms(4,6,7), where e = e and args = args] runAfter_error [OF assms(8)]
    by simp
  show ?thesis using A A' B by blast
qed

text \<open>
  An action that fails under an \<open>After\<close> hook that fails too: both errors are returned.
\<close>

theorem After_runs_after_failed_action_example:
  "Run quietEnv [hookCommand None (Some (Some (Err ''after''))) (Some (Some (Err ''action'')))]
     [] None =
     ([EvFlagActions, EvAction, EvHandleExit (Some (Err ''action'')), EvAfter,
       EvHandleExit (Some (Err ''after''))],
      Some (MultiError [Err ''action'', Err ''after'']))"
proof -
  let ?cmd = "hookCommand None (Some (Some (Err ''after''))) (Some (Some (Err ''action'')))"
  have 1: "\<not> completions quietEnv" and 2: "\<not> helpWanted quietEnv"
    and 3: "\<not> ([] = [] \<and> versionWanted quietEnv)" and 4: "\<not> EnableShellCompletion ?cmd"
    and 5: "After ?cmd = Some (Some (Err ''after''))"
    and 6: "checkRequiredFlags (?cmd # []) = (None, [])" and 7: "groupErr quietEnv = None"
    and 8: "\<not> isPanic (Err ''action'')"
    by code_simp+
  have b: "(Before ?cmd = None \<or> Before ?cmd = Some None) \<and> flagActionsErr quietEnv = None \<and>
          resolveSubcommand (suggestFunc quietEnv) (?cmd # []) [] = Inr None \<and>
          Action ?cmd = Some (Some (Err ''action''))"
    by code_simp
  have c: "Before ?cmd = None" by code_simp
  from After_runs_after_failed_action_and_failed_Before [OF 1 2 3 4 5 6 7 8, of "[]"] b c
  show ?thesis by simp
qed

end
